theory Spec2Isabelle
  imports Complex_Main "HOL-Library.Multiset" "HOL-Library.Sublist" "HOL-Library.Word"
begin

section \<open>The weather aggregator: data model\<close>

subsection \<open>Numbers\<close>

text \<open>
  A Go \<^verbatim>\<open>float64\<close> is modelled by the number it denotes, or by one of the three values
  that denote no number. The finite values of the format are the numbers \<open>m * 2^e\<close> with
  \<open>|m| < 2^53\<close> and \<open>-1074 \<le> e \<le> 971\<close> (\<open>representable\<close>); the type below is wider,
  and a finite value of the program satisfies \<open>finite64\<close>. Signed zeros are not
  distinguished.
\<close>

datatype float64 = Fin real | PInf | NInf | NaN

definition pow2 :: "int \<Rightarrow> real" where
  "pow2 e = (if 0 \<le> e then 2 ^ nat e else 1 / 2 ^ nat (- e))"

definition representable :: "real \<Rightarrow> bool" where
  "representable x \<longleftrightarrow>
     (\<exists>m e :: int. \<bar>m\<bar> < 2 ^ 53 \<and> - 1074 \<le> e \<and> e \<le> 971 \<and> x = of_int m * pow2 e)"

fun finite64 :: "float64 \<Rightarrow> bool" where
  "finite64 (Fin r) = representable r"
| "finite64 PInf = False"
| "finite64 NInf = False"
| "finite64 NaN = False"

text \<open>\<^verbatim>\<open>math.MaxFloat64\<close>, the largest finite value: \<open>(2 - 2^-52) * 2^1023\<close>.\<close>

definition MaxFloat64_real :: real where
  "MaxFloat64_real = (2 ^ 53 - 1) * 2 ^ 971"

definition MaxFloat64 :: float64 where
  "MaxFloat64 = Fin MaxFloat64_real"

text \<open>
  Rounding to nearest, as every arithmetic operation of \<^verbatim>\<open>float64\<close> rounds its exact
  result: a result of magnitude at least \<open>2^1024 - 2^970\<close>, half a unit in the last place
  above \<^verbatim>\<open>math.MaxFloat64\<close>, becomes an infinity; any other result becomes a representable
  number nearest to it. Which of two nearest numbers a tie goes to (IEEE 754 takes the one
  with the even significand) is left open; a result that is representable is not changed.
  Rounding is specified, not computed: the representable numbers are finitely many, so a
  nearest one exists.
\<close>

definition nearest :: "real \<Rightarrow> real \<Rightarrow> bool" where
  "nearest x y \<longleftrightarrow> representable y \<and> (\<forall>z. representable z \<longrightarrow> \<bar>y - x\<bar> \<le> \<bar>z - x\<bar>)"

definition overflow_threshold :: real where
  "overflow_threshold = 2 ^ 1024 - 2 ^ 970"

definition round64 :: "real \<Rightarrow> float64" where
  "round64 x =
     (if overflow_threshold \<le> x then PInf
      else if x \<le> - overflow_threshold then NInf
      else Fin (SOME y. nearest x y))"

text \<open>The operator \<^verbatim>\<open><\<close> on \<^verbatim>\<open>float64\<close>; \<^verbatim>\<open>a > b\<close> is \<open>flt b a\<close>.\<close>

fun flt :: "float64 \<Rightarrow> float64 \<Rightarrow> bool" where
  "flt NaN _ = False"
| "flt _ NaN = False"
| "flt (Fin a) (Fin b) = (a < b)"
| "flt (Fin a) PInf = True"
| "flt (Fin a) NInf = False"
| "flt NInf NInf = False"
| "flt NInf _ = True"
| "flt PInf _ = False"

text \<open>Unary minus, which is exact, and \<^verbatim>\<open>+\<close>, which rounds the exact sum.\<close>

fun fneg :: "float64 \<Rightarrow> float64" where
  "fneg (Fin a) = Fin (- a)"
| "fneg PInf = NInf"
| "fneg NInf = PInf"
| "fneg NaN = NaN"

fun fadd :: "float64 \<Rightarrow> float64 \<Rightarrow> float64" where
  "fadd NaN _ = NaN"
| "fadd _ NaN = NaN"
| "fadd (Fin a) (Fin b) = round64 (a + b)"
| "fadd PInf NInf = NaN"
| "fadd NInf PInf = NaN"
| "fadd PInf _ = PInf"
| "fadd _ PInf = PInf"
| "fadd NInf _ = NInf"
| "fadd _ NInf = NInf"

text \<open>
  The operator \<^verbatim>\<open>/\<close>, which rounds the exact quotient. A zero divisor is read as
  positive zero; the program divides by a count of at least one and by the constant 3.6.
\<close>

fun fdiv :: "float64 \<Rightarrow> float64 \<Rightarrow> float64" where
  "fdiv NaN _ = NaN"
| "fdiv _ NaN = NaN"
| "fdiv (Fin a) (Fin b) =
     (if b = 0 then (if a = 0 then NaN else if 0 < a then PInf else NInf)
      else round64 (a / b))"
| "fdiv (Fin a) PInf = Fin 0"
| "fdiv (Fin a) NInf = Fin 0"
| "fdiv PInf (Fin b) = (if b < 0 then NInf else PInf)"
| "fdiv NInf (Fin b) = (if b < 0 then PInf else NInf)"
| "fdiv PInf _ = NaN"
| "fdiv NInf _ = NaN"

text \<open>
  The conversions \<^verbatim>\<open>float64(n)\<close> of a Go \<^verbatim>\<open>int\<close> (64 bits at most) and of a length,
  which round (an integer above \<open>2^53\<close> need not be representable), and the conversion
  \<^verbatim>\<open>int(f)\<close>, which truncates towards zero. Go leaves \<^verbatim>\<open>int(f)\<close> to the implementation
  when the truncated value does not fit; the value here is the one amd64 gives.
\<close>

definition float64_of_int :: "64 word \<Rightarrow> float64" where
  "float64_of_int i = round64 (real_of_int (sint i))"

definition float64_of_nat :: "nat \<Rightarrow> float64" where
  "float64_of_nat n = round64 (real n)"

definition trunc_zero :: "real \<Rightarrow> int" where
  "trunc_zero r = (if 0 \<le> r then \<lfloor>r\<rfloor> else \<lceil>r\<rceil>)"

definition int_of_float64 :: "float64 \<Rightarrow> 64 word" where
  "int_of_float64 v =
     (case v of
        Fin r \<Rightarrow>
          if - (2 ^ 63) \<le> trunc_zero r \<and> trunc_zero r < 2 ^ 63 then word_of_int (trunc_zero r)
          else 0x8000000000000000
      | _ \<Rightarrow> 0x8000000000000000)"

subsection \<open>The records of package models\<close>

text \<open>
  The structs \<^verbatim>\<open>WeatherData\<close>, \<^verbatim>\<open>AggregatedValue\<close> and \<^verbatim>\<open>AggregatedWeather\<close> of package
  \<^verbatim>\<open>models\<close>, field for field. A Go \<^verbatim>\<open>int\<close> is a word of 64 bits; a \<^verbatim>\<open>time.Time\<close> is a
  number of nanoseconds on one clock.
\<close>

record WeatherData =
  Provider :: string
  Location :: string
  Temperature :: float64
  FeelsLike :: float64
  Humidity :: "64 word"
  Pressure :: "64 word"
  WindSpeed :: float64
  WindDirection :: "64 word"
  Description :: string
  Icon :: string
  Sunrise :: int
  Sunset :: int
  Timestamp :: int
  Units :: string

record AggregatedValue =
  av_Average :: float64
  av_Min :: float64
  av_Max :: float64
  av_Values :: "float64 list"

record AggregatedWeather =
  aw_Location :: string
  aw_Temperature :: AggregatedValue
  aw_FeelsLike :: AggregatedValue
  aw_Humidity :: AggregatedValue
  aw_Pressure :: AggregatedValue
  aw_WindSpeed :: AggregatedValue
  aw_Description :: string
  aw_Providers :: "string list"
  aw_LastUpdated :: int

section \<open>The statistical reducer\<close>

subsection \<open>aggregateValues\<close>

text \<open>The zero value \<^verbatim>\<open>models.AggregatedValue{}\<close>.\<close>

definition zero_AggregatedValue :: AggregatedValue where
  "zero_AggregatedValue =
     \<lparr>av_Average = Fin 0, av_Min = Fin 0, av_Max = Fin 0, av_Values = []\<rparr>"

text \<open>The body of the \<^verbatim>\<open>for _, v := range values\<close> loop, on the triple (sum, min, max), here \<open>(sm, mn, mx)\<close>.\<close>

fun aggregate_loop ::
  "float64 list \<Rightarrow> float64 \<times> float64 \<times> float64 \<Rightarrow> float64 \<times> float64 \<times> float64" where
  "aggregate_loop [] acc = acc"
| "aggregate_loop (v # vs) (sm, mn, mx) =
     aggregate_loop vs
       (fadd sm v, (if flt v mn then v else mn), (if flt mx v then v else mx))"

definition aggregateValues :: "float64 list \<Rightarrow> AggregatedValue" where
  "aggregateValues values =
     (if length values = 0 then zero_AggregatedValue
      else
        (case aggregate_loop values (Fin 0, MaxFloat64, fneg MaxFloat64) of
           (sm, mn, mx) \<Rightarrow>
             \<lparr>av_Average = fdiv sm (float64_of_nat (length values)),
              av_Min = mn, av_Max = mx, av_Values = values\<rparr>))"

text \<open>
  The reference definition of the specification, in its own words: the zero-valued result
  for the empty sequence, otherwise the sum of the values divided by their count, the exact
  minimum, the exact maximum and the input itself. The sum and the quotient are those of
  \<^verbatim>\<open>float64\<close>: the values added from left to right, and the sum divided by the count, each
  operation rounding once.
\<close>

definition aggregate_numeric :: "real list \<Rightarrow> AggregatedValue" where
  "aggregate_numeric rs =
     (if rs = [] then
        \<lparr>av_Average = Fin 0, av_Min = Fin 0, av_Max = Fin 0, av_Values = []\<rparr>
      else
        \<lparr>av_Average = fdiv (foldl fadd (Fin 0) (map Fin rs)) (float64_of_nat (length rs)),
         av_Min = Fin (Min (set rs)), av_Max = Fin (Max (set rs)),
         av_Values = map Fin rs\<rparr>)"

subsection \<open>mostFrequent\<close>

text \<open>
  \<^verbatim>\<open>freq[v]++\<close> over the values: a missing key reads as zero. The tally is a Go map.
\<close>

fun tally :: "string list \<Rightarrow> (string \<rightharpoonup> nat) \<Rightarrow> (string \<rightharpoonup> nat)" where
  "tally [] freq = freq"
| "tally (v # vs) freq =
     tally vs (freq(v \<mapsto> (case freq v of None \<Rightarrow> 0 | Some c \<Rightarrow> c) + 1))"

text \<open>
  \<^verbatim>\<open>for v, f := range freq\<close>: Go visits every entry of the map once, in an order it does
  not specify. The order of the visit is the list \<open>keys\<close>, an input of the model; a
  run of the program corresponds to a list that enumerates the keys of the map
  (\<open>iteration_order\<close>). The state of the loop is the pair (maxFreq, result).
\<close>

fun scan :: "(string \<rightharpoonup> nat) \<Rightarrow> string list \<Rightarrow> nat \<times> string \<Rightarrow> nat \<times> string" where
  "scan freq [] acc = acc"
| "scan freq (v # ks) (maxFreq, result) =
     (case freq v of
        None \<Rightarrow> scan freq ks (maxFreq, result)
      | Some f \<Rightarrow> scan freq ks (if f > maxFreq then (f, v) else (maxFreq, result)))"

definition mostFrequent :: "string list \<Rightarrow> string list \<Rightarrow> string" where
  "mostFrequent keys values = snd (scan (tally values Map.empty) keys (0, []))"

definition iteration_order :: "string list \<Rightarrow> string list \<Rightarrow> bool" where
  "iteration_order keys values \<longleftrightarrow> distinct keys \<and> set keys = dom (tally values Map.empty)"

section \<open>The aggregation engine\<close>

subsection \<open>Providers, errors and the aggregator\<close>

text \<open>
  The interface \<^verbatim>\<open>providers.Provider\<close>: \<^verbatim>\<open>Name()\<close>, \<^verbatim>\<open>IsAvailable()\<close> and
  \<^verbatim>\<open>GetWeather(ctx, city, country)\<close>. A call returns an error, given by its message, or a
  reading (the adapters return a non-nil reading exactly when the error is nil). What the
  network answers, and what the context does to a call in flight, is part of the function
  \<open>p_GetWeather\<close> of the provider: one call of the aggregator calls each provider at most
  once.
\<close>

record provider =
  Name :: string
  IsAvailable :: bool
  p_GetWeather :: "string \<Rightarrow> string \<Rightarrow> string + WeatherData"

text \<open>\<^verbatim>\<open>ctx.Err()\<close> of a context that is done, and the message of that error.\<close>

datatype ctx_err = Canceled | DeadlineExceeded

fun ctx_Err_Error :: "ctx_err \<Rightarrow> string" where
  "ctx_Err_Error Canceled = ''context canceled''"
| "ctx_Err_Error DeadlineExceeded = ''context deadline exceeded''"

text \<open>
  The three errors \<^verbatim>\<open>GetWeather\<close> builds with \<^verbatim>\<open>fmt.Errorf\<close>, in the order of the source
  (lines 51, 98 and 100), under the names the specification gives them. The second one
  formats the collected messages \<^verbatim>\<open>errs\<close> into its text with \<^verbatim>\<open>%v\<close>; the model keeps the
  list.
\<close>

datatype error = NoProvidersAvailable | AllProvidersFailed "string list" | EmptyResultSet

record cacheEntry =
  data :: AggregatedWeather
  timestamp :: int

record Aggregator =
  providers :: "provider list"
  cache :: "string \<rightharpoonup> cacheEntry"
  cacheTTL :: int

text \<open>
  \<^verbatim>\<open>time.Duration(cacheDurationMinutes) * time.Minute\<close>: a product of 64-bit integers,
  which wraps; a duration counts nanoseconds.
\<close>

definition Minute :: "64 word" where
  "Minute = 60000000000"

definition NewAggregator :: "64 word \<Rightarrow> Aggregator" where
  "NewAggregator cacheDurationMinutes =
     \<lparr>providers = [], cache = Map.empty, cacheTTL = sint (cacheDurationMinutes * Minute)\<rparr>"

definition AddProvider :: "Aggregator \<Rightarrow> provider \<Rightarrow> Aggregator" where
  "AddProvider a p = (if IsAvailable p then a\<lparr>providers := providers a @ [p]\<rparr> else a)"

definition GetProviderCount :: "Aggregator \<Rightarrow> nat" where
  "GetProviderCount a = length (providers a)"

definition GetProvidersInfo :: "Aggregator \<Rightarrow> string list" where
  "GetProvidersInfo a = map Name (providers a)"

subsection \<open>The two adapters\<close>

text \<open>
  The providers that \<^verbatim>\<open>main\<close> registers are \<^verbatim>\<open>OpenWeatherProvider\<close> and
  \<^verbatim>\<open>WeatherAPIProvider\<close>. What a call of \<^verbatim>\<open>GetWeather\<close> of an adapter takes from its
  environment is the outcome of the HTTP exchange and the clock: the error of
  \<^verbatim>\<open>http.NewRequestWithContext\<close>, the error of \<^verbatim>\<open>client.Do\<close> (a context that ends during
  the exchange shows here), or the status of the response and what \<^verbatim>\<open>encoding/json\<close>
  makes of its body, an error or the decoded struct. The messages of the adapters are
  Russian; each is given by the bytes of its UTF-8 encoding.
\<close>

datatype 'body exchange =
    NewRequestError string
  | DoError string
  | Response int 'body

definition msg_provider :: string where
  "msg_provider =
     [CHR 0xD0, CHR 0xBF, CHR 0xD1, CHR 0x80, CHR 0xD0, CHR 0xBE, CHR 0xD0, CHR 0xB2,
      CHR 0xD0, CHR 0xB0, CHR 0xD0, CHR 0xB9, CHR 0xD0, CHR 0xB4, CHR 0xD0, CHR 0xB5,
      CHR 0xD1, CHR 0x80, CHR 0x20]"

definition msg_not_configured :: string where
  "msg_not_configured =
     [CHR 0x20, CHR 0xD0, CHR 0xBD, CHR 0xD0, CHR 0xB5, CHR 0x20, CHR 0xD0, CHR 0xBD,
      CHR 0xD0, CHR 0xB0, CHR 0xD1, CHR 0x81, CHR 0xD1, CHR 0x82, CHR 0xD1, CHR 0x80,
      CHR 0xD0, CHR 0xBE, CHR 0xD0, CHR 0xB5, CHR 0xD0, CHR 0xBD]"

definition msg_request_creation :: string where
  "msg_request_creation =
     [CHR 0xD0, CHR 0xBE, CHR 0xD1, CHR 0x88, CHR 0xD0, CHR 0xB8, CHR 0xD0, CHR 0xB1,
      CHR 0xD0, CHR 0xBA, CHR 0xD0, CHR 0xB0, CHR 0x20, CHR 0xD1, CHR 0x81, CHR 0xD0,
      CHR 0xBE, CHR 0xD0, CHR 0xB7, CHR 0xD0, CHR 0xB4, CHR 0xD0, CHR 0xB0, CHR 0xD0,
      CHR 0xBD, CHR 0xD0, CHR 0xB8, CHR 0xD1, CHR 0x8F, CHR 0x20, CHR 0xD0, CHR 0xB7,
      CHR 0xD0, CHR 0xB0, CHR 0xD0, CHR 0xBF, CHR 0xD1, CHR 0x80, CHR 0xD0, CHR 0xBE,
      CHR 0xD1, CHR 0x81, CHR 0xD0, CHR 0xB0, CHR 0x3A, CHR 0x20]"

definition msg_http_request :: string where
  "msg_http_request =
     [CHR 0xD0, CHR 0xBE, CHR 0xD1, CHR 0x88, CHR 0xD0, CHR 0xB8, CHR 0xD0, CHR 0xB1,
      CHR 0xD0, CHR 0xBA, CHR 0xD0, CHR 0xB0, CHR 0x20, CHR 0x48, CHR 0x54, CHR 0x54,
      CHR 0x50, CHR 0x20, CHR 0xD0, CHR 0xB7, CHR 0xD0, CHR 0xB0, CHR 0xD0, CHR 0xBF,
      CHR 0xD1, CHR 0x80, CHR 0xD0, CHR 0xBE, CHR 0xD1, CHR 0x81, CHR 0xD0, CHR 0xB0,
      CHR 0x3A, CHR 0x20]"

definition msg_city_not_found :: string where
  "msg_city_not_found =
     [CHR 0xD0, CHR 0xB3, CHR 0xD0, CHR 0xBE, CHR 0xD1, CHR 0x80, CHR 0xD0, CHR 0xBE,
      CHR 0xD0, CHR 0xB4, CHR 0x20, CHR 0xD0, CHR 0xBD, CHR 0xD0, CHR 0xB5, CHR 0x20,
      CHR 0xD0, CHR 0xBD, CHR 0xD0, CHR 0xB0, CHR 0xD0, CHR 0xB9, CHR 0xD0, CHR 0xB4,
      CHR 0xD0, CHR 0xB5, CHR 0xD0, CHR 0xBD]"

definition msg_bad_api_key :: string where
  "msg_bad_api_key =
     [CHR 0xD0, CHR 0xBD, CHR 0xD0, CHR 0xB5, CHR 0xD0, CHR 0xB2, CHR 0xD0, CHR 0xB5,
      CHR 0xD1, CHR 0x80, CHR 0xD0, CHR 0xBD, CHR 0xD1, CHR 0x8B, CHR 0xD0, CHR 0xB9,
      CHR 0x20, CHR 0x41, CHR 0x50, CHR 0x49, CHR 0x20, CHR 0xD0, CHR 0xBA, CHR 0xD0,
      CHR 0xBB, CHR 0xD1, CHR 0x8E, CHR 0xD1, CHR 0x87]"

definition msg_api_status :: string where
  "msg_api_status =
     [CHR 0xD0, CHR 0xBE, CHR 0xD1, CHR 0x88, CHR 0xD0, CHR 0xB8, CHR 0xD0, CHR 0xB1,
      CHR 0xD0, CHR 0xBA, CHR 0xD0, CHR 0xB0, CHR 0x20, CHR 0x41, CHR 0x50, CHR 0x49,
      CHR 0x3A, CHR 0x20, CHR 0xD1, CHR 0x81, CHR 0xD1, CHR 0x82, CHR 0xD0, CHR 0xB0,
      CHR 0xD1, CHR 0x82, CHR 0xD1, CHR 0x83, CHR 0xD1, CHR 0x81, CHR 0x20]"

definition msg_json :: string where
  "msg_json =
     [CHR 0xD0, CHR 0xBE, CHR 0xD1, CHR 0x88, CHR 0xD0, CHR 0xB8, CHR 0xD0, CHR 0xB1,
      CHR 0xD0, CHR 0xBA, CHR 0xD0, CHR 0xB0, CHR 0x20, CHR 0xD0, CHR 0xBF, CHR 0xD0,
      CHR 0xB0, CHR 0xD1, CHR 0x80, CHR 0xD1, CHR 0x81, CHR 0xD0, CHR 0xB8, CHR 0xD0,
      CHR 0xBD, CHR 0xD0, CHR 0xB3, CHR 0xD0, CHR 0xB0, CHR 0x20, CHR 0x4A, CHR 0x53,
      CHR 0x4F, CHR 0x4E, CHR 0x3A, CHR 0x20]"

definition msg_no_weather :: string where
  "msg_no_weather =
     [CHR 0xD0, CHR 0xBD, CHR 0xD0, CHR 0xB5, CHR 0xD1, CHR 0x82, CHR 0x20, CHR 0xD0,
      CHR 0xB4, CHR 0xD0, CHR 0xB0, CHR 0xD0, CHR 0xBD, CHR 0xD0, CHR 0xBD, CHR 0xD1,
      CHR 0x8B, CHR 0xD1, CHR 0x85, CHR 0x20, CHR 0xD0, CHR 0xBE, CHR 0x20, CHR 0xD0,
      CHR 0xBF, CHR 0xD0, CHR 0xBE, CHR 0xD0, CHR 0xB3, CHR 0xD0, CHR 0xBE, CHR 0xD0,
      CHR 0xB4, CHR 0xD0, CHR 0xB5]"

definition msg_weatherapi :: string where
  "msg_weatherapi =
     [CHR 0xD0, CHR 0xBE, CHR 0xD1, CHR 0x88, CHR 0xD0, CHR 0xB8, CHR 0xD0, CHR 0xB1,
      CHR 0xD0, CHR 0xBA, CHR 0xD0, CHR 0xB0, CHR 0x20, CHR 0x57, CHR 0x65, CHR 0x61,
      CHR 0x74, CHR 0x68, CHR 0x65, CHR 0x72, CHR 0x41, CHR 0x50, CHR 0x49, CHR 0x3A,
      CHR 0x20]"

text \<open>\<^verbatim>\<open>%d\<close> of a status code.\<close>

fun decimal_nat :: "nat \<Rightarrow> string" where
  "decimal_nat n =
     (if n < 10 then [''0123456789'' ! n]
      else decimal_nat (n div 10) @ [''0123456789'' ! (n mod 10)])"

definition decimal :: "int \<Rightarrow> string" where
  "decimal i = (if i < 0 then CHR ''-'' # decimal_nat (nat (- i)) else decimal_nat (nat i))"

text \<open>
  The struct that \<^verbatim>\<open>OpenWeatherProvider.GetWeather\<close> decodes the body into; an entry of
  \<^verbatim>\<open>weather\<close> is a description and an icon.
\<close>

record ow_result =
  ow_name :: string
  ow_temp :: float64
  ow_feels_like :: float64
  ow_humidity :: "64 word"
  ow_pressure :: "64 word"
  ow_speed :: float64
  ow_deg :: "64 word"
  ow_weather :: "(string \<times> string) list"
  ow_sunrise :: "64 word"
  ow_sunset :: "64 word"

text \<open>
  Times are nanoseconds since the Unix epoch: \<^verbatim>\<open>time.Unix(sec, 0)\<close>, and the zero value of
  \<^verbatim>\<open>time.Time\<close>, the first instant of the year 1.
\<close>

definition time_Unix :: "64 word \<Rightarrow> int" where
  "time_Unix sec = sint sec * 1000000000"

definition zero_Time :: int where
  "zero_Time = - 62135596800 * 1000000000"

definition OpenWeather_Name :: string where
  "OpenWeather_Name = ''OpenWeatherMap''"

definition OpenWeather_GetWeather ::
  "string \<Rightarrow> (string + ow_result) exchange \<Rightarrow> int \<Rightarrow> string \<Rightarrow> string \<Rightarrow> string + WeatherData" where
  "OpenWeather_GetWeather apiKey ex now city country =
     (if apiKey = [] then Inl (msg_provider @ OpenWeather_Name @ msg_not_configured)
      else
        (case ex of
           NewRequestError err \<Rightarrow> Inl (msg_request_creation @ err)
         | DoError err \<Rightarrow> Inl (msg_http_request @ err)
         | Response status body \<Rightarrow>
             if status \<noteq> 200 then
               (if status = 404 then Inl msg_city_not_found
                else if status = 401 then Inl msg_bad_api_key
                else Inl (msg_api_status @ decimal status))
             else
               (case body of
                  Inl err \<Rightarrow> Inl (msg_json @ err)
                | Inr result \<Rightarrow>
                    if length (ow_weather result) = 0 then Inl msg_no_weather
                    else
                      Inr \<lparr>Provider = OpenWeather_Name,
                           Location = ow_name result @ '', '' @ country,
                           Temperature = ow_temp result,
                           FeelsLike = ow_feels_like result,
                           Humidity = ow_humidity result,
                           Pressure = ow_pressure result,
                           WindSpeed = ow_speed result,
                           WindDirection = ow_deg result,
                           Description = fst (ow_weather result ! 0),
                           Icon = snd (ow_weather result ! 0),
                           Sunrise = time_Unix (ow_sunrise result),
                           Sunset = time_Unix (ow_sunset result),
                           Timestamp = now,
                           Units = ''metric''\<rparr>)))"

text \<open>
  The adapter with the key \<open>apiKey\<close>, where its exchange gives \<open>ex\<close> at the time \<open>now\<close>.
\<close>

definition OpenWeatherProvider :: "string \<Rightarrow> (string + ow_result) exchange \<Rightarrow> int \<Rightarrow> provider" where
  "OpenWeatherProvider apiKey ex now =
     \<lparr>Name = OpenWeather_Name, IsAvailable = (apiKey \<noteq> []),
      p_GetWeather = OpenWeather_GetWeather apiKey ex now\<rparr>"

text \<open>
  \<^verbatim>\<open>WeatherAPIProvider.GetWeather\<close> decodes the body of a response that is not
  \<^verbatim>\<open>200\<close> into a struct with the message of the service (\<open>wa_error\<close>: the error of the
  decoding, or the message), and the body of a response that is into its result
  (\<open>wa_result\<close>).
\<close>

record wa_current =
  wa_location_name :: string
  wa_location_country :: string
  wa_temp_c :: float64
  wa_feelslike_c :: float64
  wa_humidity :: "64 word"
  wa_pressure_mb :: float64
  wa_wind_kph :: float64
  wa_wind_degree :: "64 word"
  wa_condition_text :: string
  wa_condition_icon :: string

record wa_body =
  wa_error :: "string + string"
  wa_result :: "string + wa_current"

text \<open>The constant 3.6 as a \<^verbatim>\<open>float64\<close>: the representable number nearest to 3.6.\<close>

definition const_3_6 :: real where
  "const_3_6 = 8106479329266893 / 2 ^ 51"

definition WeatherAPI_Name :: string where
  "WeatherAPI_Name = ''WeatherAPI''"

definition WeatherAPI_GetWeather ::
  "string \<Rightarrow> wa_body exchange \<Rightarrow> int \<Rightarrow> string \<Rightarrow> string \<Rightarrow> string + WeatherData" where
  "WeatherAPI_GetWeather apiKey ex now city country =
     (if apiKey = [] then Inl (msg_provider @ WeatherAPI_Name @ msg_not_configured)
      else
        (case ex of
           NewRequestError err \<Rightarrow> Inl (msg_request_creation @ err)
         | DoError err \<Rightarrow> Inl (msg_http_request @ err)
         | Response status body \<Rightarrow>
             if status \<noteq> 200 then
               (case wa_error body of
                  Inr message \<Rightarrow>
                    if message \<noteq> [] then Inl (msg_weatherapi @ message)
                    else Inl (msg_api_status @ decimal status)
                | Inl err \<Rightarrow> Inl (msg_api_status @ decimal status))
             else
               (case wa_result body of
                  Inl err \<Rightarrow> Inl (msg_json @ err)
                | Inr result \<Rightarrow>
                    Inr \<lparr>Provider = WeatherAPI_Name,
                         Location = wa_location_name result @ '', '' @ wa_location_country result,
                         Temperature = wa_temp_c result,
                         FeelsLike = wa_feelslike_c result,
                         Humidity = wa_humidity result,
                         Pressure = int_of_float64 (wa_pressure_mb result),
                         WindSpeed = fdiv (wa_wind_kph result) (Fin const_3_6),
                         WindDirection = wa_wind_degree result,
                         Description = wa_condition_text result,
                         Icon = ''https:'' @ wa_condition_icon result,
                         Sunrise = zero_Time,
                         Sunset = zero_Time,
                         Timestamp = now,
                         Units = ''metric''\<rparr>)))"

definition WeatherAPIProvider :: "string \<Rightarrow> wa_body exchange \<Rightarrow> int \<Rightarrow> provider" where
  "WeatherAPIProvider apiKey ex now =
     \<lparr>Name = WeatherAPI_Name, IsAvailable = (apiKey \<noteq> []),
      p_GetWeather = WeatherAPI_GetWeather apiKey ex now\<rparr>"

text \<open>
  \<^verbatim>\<open>encoding/json\<close> decodes a number into a \<^verbatim>\<open>float64\<close> field only if it is in range: the
  decoded numbers are finite values of the format. A provider of the program is one of
  the two adapters, in a world that decodes so.
\<close>

fun decoded_ow :: "(string + ow_result) exchange \<Rightarrow> bool" where
  "decoded_ow (Response status (Inr result)) =
     (finite64 (ow_temp result) \<and> finite64 (ow_feels_like result) \<and> finite64 (ow_speed result))"
| "decoded_ow _ = True"

fun decoded_wa :: "wa_body exchange \<Rightarrow> bool" where
  "decoded_wa (Response status body) =
     (case wa_result body of
        Inr result \<Rightarrow>
          finite64 (wa_temp_c result) \<and> finite64 (wa_feelslike_c result) \<and>
          finite64 (wa_pressure_mb result) \<and> finite64 (wa_wind_kph result)
      | Inl err \<Rightarrow> True)"
| "decoded_wa _ = True"

definition adapter :: "provider \<Rightarrow> bool" where
  "adapter p \<longleftrightarrow>
     (\<exists>apiKey ex now. decoded_ow ex \<and> p = OpenWeatherProvider apiKey ex now) \<or>
     (\<exists>apiKey ex now. decoded_wa ex \<and> p = WeatherAPIProvider apiKey ex now)"

subsection \<open>The cache\<close>

text \<open>
  The methods have a pointer receiver, so each returns the aggregator it leaves behind.
  \<open>now\<close> is the clock at the call: \<^verbatim>\<open>time.Since(entry.timestamp)\<close> is
  \<open>now - timestamp entry\<close>.
\<close>

definition getFromCache ::
  "int \<Rightarrow> Aggregator \<Rightarrow> string \<Rightarrow> AggregatedWeather option \<times> Aggregator" where
  "getFromCache now a key =
     (case cache a key of
        None \<Rightarrow> (None, a)
      | Some entry \<Rightarrow>
          if now - timestamp entry > cacheTTL a then (None, a)
          else (Some (data entry), a))"

definition saveToCache :: "int \<Rightarrow> Aggregator \<Rightarrow> string \<Rightarrow> AggregatedWeather \<Rightarrow> Aggregator" where
  "saveToCache now a key d =
     a\<lparr>cache := (cache a)(key \<mapsto> \<lparr>data = d, timestamp = now\<rparr>)\<rparr>"

definition ClearCache :: "Aggregator \<Rightarrow> Aggregator" where
  "ClearCache a = a\<lparr>cache := Map.empty\<rparr>"

subsection \<open>One call of GetWeather\<close>

text \<open>
  What one call of \<^verbatim>\<open>GetWeather\<close> takes from its environment: the clock at the three
  places that read it (the lookup, \<^verbatim>\<open>aggregateWeather\<close>, \<^verbatim>\<open>saveToCache\<close>); for the
  goroutine of the provider at index \<open>i\<close>, whether \<^verbatim>\<open>ctx.Done()\<close> was ready at its
  \<^verbatim>\<open>select\<close>, and then with which error; the order in which the goroutines sent to
  the channels; and the order in which the map of \<^verbatim>\<open>mostFrequent\<close> is visited.
\<close>

record run =
  now_lookup :: int
  now_aggregate :: int
  now_save :: int
  ctx_done :: "nat \<Rightarrow> ctx_err option"
  completion :: "nat list"
  range_order :: "string list"

text \<open>
  \<^verbatim>\<open>wg.Wait()\<close> returns when every goroutine launched has finished: the completion
  order names every provider index once.
\<close>

definition all_joined :: "run \<Rightarrow> Aggregator \<Rightarrow> bool" where
  "all_joined r a \<longleftrightarrow> mset (completion r) = mset [0..<length (providers a)]"

definition cacheKey :: "string \<Rightarrow> string \<Rightarrow> string" where
  "cacheKey city country = city @ '','' @ country"

text \<open>
  The goroutine of one provider: \<open>Inl\<close> is the message of the error it sends on the
  channel \<^verbatim>\<open>errors\<close>, \<open>Inr\<close> the reading it sends on \<^verbatim>\<open>results\<close>.
\<close>

definition goroutine :: "run \<Rightarrow> string \<Rightarrow> string \<Rightarrow> nat \<Rightarrow> provider \<Rightarrow> string + WeatherData" where
  "goroutine r city country i p =
     (case ctx_done r i of
        Some e \<Rightarrow> Inl (ctx_Err_Error e)
      | None \<Rightarrow>
          (case p_GetWeather p city country of
             Inl err \<Rightarrow> Inl (Name p @ '': '' @ err)
           | Inr weather \<Rightarrow> Inr weather))"

text \<open>What was sent, in the order of sending.\<close>

definition sent :: "run \<Rightarrow> Aggregator \<Rightarrow> string \<Rightarrow> string \<Rightarrow> (string + WeatherData) list" where
  "sent r a city country =
     map (\<lambda>i. goroutine r city country i (providers a ! i)) (completion r)"

text \<open>The two loops that drain the channels.\<close>

fun drain_results :: "(string + WeatherData) list \<Rightarrow> WeatherData list" where
  "drain_results [] = []"
| "drain_results (Inr weather # xs) = weather # drain_results xs"
| "drain_results (Inl err # xs) = drain_results xs"

fun drain_errors :: "(string + WeatherData) list \<Rightarrow> string list" where
  "drain_errors [] = []"
| "drain_errors (Inl err # xs) = err # drain_errors xs"
| "drain_errors (Inr weather # xs) = drain_errors xs"

text \<open>The names of the providers whose \<^verbatim>\<open>GetWeather\<close> was called.\<close>

definition invoked :: "run \<Rightarrow> Aggregator \<Rightarrow> string list" where
  "invoked r a =
     map (\<lambda>i. Name (providers a ! i)) (filter (\<lambda>i. ctx_done r i = None) (completion r))"

definition aggregateWeather ::
  "run \<Rightarrow> WeatherData list \<Rightarrow> string \<Rightarrow> string \<Rightarrow> AggregatedWeather" where
  "aggregateWeather r ds city country =
     \<lparr>aw_Location = city @ '', '' @ country,
      aw_Temperature = aggregateValues (map Temperature ds),
      aw_FeelsLike = aggregateValues (map FeelsLike ds),
      aw_Humidity = aggregateValues (map (\<lambda>d. float64_of_int (Humidity d)) ds),
      aw_Pressure = aggregateValues (map (\<lambda>d. float64_of_int (Pressure d)) ds),
      aw_WindSpeed = aggregateValues (map WindSpeed ds),
      aw_Description = mostFrequent (range_order r) (map Description ds),
      aw_Providers = map Provider ds,
      aw_LastUpdated = now_aggregate r\<rparr>"

text \<open>
  \<^verbatim>\<open>GetWeather\<close> returns its result, the aggregator it leaves behind and the names of the
  providers it called.
\<close>

definition GetWeather ::
  "run \<Rightarrow> Aggregator \<Rightarrow> string \<Rightarrow> string \<Rightarrow>
     (error + AggregatedWeather) \<times> Aggregator \<times> string list" where
  "GetWeather r a city country =
     (case getFromCache (now_lookup r) a (cacheKey city country) of
        (Some cached, a1) \<Rightarrow> (Inr cached, a1, [])
      | (None, a1) \<Rightarrow>
          if length (providers a1) = 0 then (Inl NoProvidersAvailable, a1, [])
          else
            let weatherData = drain_results (sent r a1 city country);
                errs = drain_errors (sent r a1 city country)
            in
              if length weatherData = 0 then
                (if length errs > 0 then (Inl (AllProvidersFailed errs), a1, invoked r a1)
                 else (Inl EmptyResultSet, a1, invoked r a1))
              else
                let aggregated = aggregateWeather r weatherData city country
                in (Inr aggregated,
                    saveToCache (now_save r) a1 (cacheKey city country) aggregated,
                    invoked r a1))"

text \<open>A message is tagged with a provider's name when it starts with the name and a colon.\<close>

definition tagged :: "string \<Rightarrow> string \<Rightarrow> bool" where
  "tagged name msg \<longleftrightarrow> prefix (name @ '': '') msg"

subsection \<open>Vocabulary of the properties\<close>

text \<open>
  The lookup of the call misses; the provider at index \<open>i\<close> was called and returned the
  reading \<open>w\<close>; the goroutine of the provider at index \<open>i\<close> sent an error, and which
  message; the statistic of a single value.
\<close>

definition cache_miss :: "run \<Rightarrow> Aggregator \<Rightarrow> string \<Rightarrow> string \<Rightarrow> bool" where
  "cache_miss r a city country \<longleftrightarrow>
     fst (getFromCache (now_lookup r) a (cacheKey city country)) = None"

definition succeeds :: "run \<Rightarrow> Aggregator \<Rightarrow> string \<Rightarrow> string \<Rightarrow> nat \<Rightarrow> WeatherData \<Rightarrow> bool" where
  "succeeds r a city country i w \<longleftrightarrow>
     i < length (providers a) \<and> ctx_done r i = None \<and>
     p_GetWeather (providers a ! i) city country = Inr w"

definition fails :: "run \<Rightarrow> Aggregator \<Rightarrow> string \<Rightarrow> string \<Rightarrow> nat \<Rightarrow> bool" where
  "fails r a city country i \<longleftrightarrow>
     ctx_done r i \<noteq> None \<or> isl (p_GetWeather (providers a ! i) city country)"

definition failure_message :: "run \<Rightarrow> Aggregator \<Rightarrow> string \<Rightarrow> string \<Rightarrow> nat \<Rightarrow> string" where
  "failure_message r a city country i =
     (case ctx_done r i of
        Some e \<Rightarrow> ctx_Err_Error e
      | None \<Rightarrow> Name (providers a ! i) @ '': '' @ projl (p_GetWeather (providers a ! i) city country))"

definition single_value :: "float64 \<Rightarrow> AggregatedValue" where
  "single_value v = \<lparr>av_Average = v, av_Min = v, av_Max = v, av_Values = [v]\<rparr>"

subsection \<open>Example data\<close>

text \<open>
  Three providers, of which only \<open>A\<close> answers; the aggregator that registers them with a
  cache of ten minutes; and runs of \<^verbatim>\<open>GetWeather\<close>: one with a live context, one whose context is cancelled
  before any goroutine reaches its \<^verbatim>\<open>select\<close>, one a minute after the first.
\<close>

definition reading_A :: WeatherData where
  "reading_A =
     \<lparr>Provider = ''A'', Location = ''Paris, FR'', Temperature = Fin 10, FeelsLike = Fin 8,
      Humidity = 50, Pressure = 1013, WindSpeed = Fin 3, WindDirection = 180,
      Description = ''rain'', Icon = ''10d'', Sunrise = 0, Sunset = 0, Timestamp = 0,
      Units = ''metric''\<rparr>"

definition provider_A :: provider where
  "provider_A =
     \<lparr>Name = ''A'', IsAvailable = True, p_GetWeather = (\<lambda>city country. Inr reading_A)\<rparr>"

definition provider_B :: provider where
  "provider_B =
     \<lparr>Name = ''B'', IsAvailable = True, p_GetWeather = (\<lambda>city country. Inl ''timeout'')\<rparr>"

definition provider_C :: provider where
  "provider_C =
     \<lparr>Name = ''C'', IsAvailable = True, p_GetWeather = (\<lambda>city country. Inl ''not found'')\<rparr>"

definition three_providers :: Aggregator where
  "three_providers =
     AddProvider (AddProvider (AddProvider (NewAggregator 10) provider_B) provider_A) provider_C"

definition run_0 :: run where
  "run_0 = \<lparr>now_lookup = 0, now_aggregate = 1, now_save = 2, ctx_done = (\<lambda>i. None),
            completion = [2, 0, 1], range_order = [''rain'']\<rparr>"

definition run_cancelled :: run where
  "run_cancelled = run_0\<lparr>ctx_done := (\<lambda>i. Some Canceled)\<rparr>"

definition run_later :: run where
  "run_later = \<lparr>now_lookup = 60000000002, now_aggregate = 60000000003,
                now_save = 60000000004, ctx_done = (\<lambda>i. None),
                completion = [1, 0, 2], range_order = [''rain'']\<rparr>"

definition weather_0 :: AggregatedWeather where
  "weather_0 = aggregateWeather run_0 [reading_A] ''Paris'' ''FR''"

text \<open>
  Three adapters, of which only the second answers with a body: the aggregator that
  registers them, and the reading the second adapter builds for Paris.
\<close>

definition ow_paris :: ow_result where
  "ow_paris =
     \<lparr>ow_name = ''Paris'', ow_temp = Fin 10, ow_feels_like = Fin 8, ow_humidity = 50,
      ow_pressure = 1013, ow_speed = Fin 3, ow_deg = 180, ow_weather = [(''rain'', ''10d'')],
      ow_sunrise = 1000, ow_sunset = 2000\<rparr>"

definition adapter_0 :: provider where
  "adapter_0 = WeatherAPIProvider ''key0'' (DoError ''timeout'') 1"

definition adapter_1 :: provider where
  "adapter_1 = OpenWeatherProvider ''key1'' (Response 200 (Inr ow_paris)) 1"

definition adapter_2 :: provider where
  "adapter_2 =
     WeatherAPIProvider ''key2''
       (Response 401 \<lparr>wa_error = Inr ''API key is invalid'', wa_result = Inl ''no result''\<rparr>) 1"

definition three_adapters :: Aggregator where
  "three_adapters =
     AddProvider (AddProvider (AddProvider (NewAggregator 10) adapter_0) adapter_1) adapter_2"

definition reading_paris :: WeatherData where
  "reading_paris =
     \<lparr>Provider = ''OpenWeatherMap'', Location = ''Paris, FR'', Temperature = Fin 10,
      FeelsLike = Fin 8, Humidity = 50, Pressure = 1013, WindSpeed = Fin 3,
      WindDirection = 180, Description = ''rain'', Icon = ''10d'',
      Sunrise = 1000000000000, Sunset = 2000000000000, Timestamp = 1, Units = ''metric''\<rparr>"

text \<open>
  One adapter alone, whose body reports a humidity of \<open>2^53 + 1\<close>, a number JSON carries
  and a Go \<^verbatim>\<open>int\<close> holds; the reading it builds; and the run that joins it.
\<close>

definition adapter_big :: provider where
  "adapter_big =
     OpenWeatherProvider ''key1''
       (Response 200 (Inr (ow_paris\<lparr>ow_humidity := 9007199254740993\<rparr>))) 1"

definition one_adapter :: Aggregator where
  "one_adapter = AddProvider (NewAggregator 10) adapter_big"

definition reading_big :: WeatherData where
  "reading_big = reading_paris\<lparr>Humidity := 9007199254740993\<rparr>"

definition run_single :: run where
  "run_single = run_0\<lparr>completion := [0]\<rparr>"

section \<open>Properties of the numbers\<close>

subsection \<open>Representable numbers and rounding\<close>

lemma finite_abs_less: "finite {m :: int. \<bar>m\<bar> < k}"
proof -
  have "{m :: int. \<bar>m\<bar> < k} = {- k <..< k}" by auto
  then show ?thesis by simp
qed

lemma finite_between: "finite {e :: int. l \<le> e \<and> e \<le> u}"
proof -
  have "{e :: int. l \<le> e \<and> e \<le> u} = {l .. u}" by auto
  then show ?thesis by simp
qed

lemma finite_representable: "finite {x. representable x}"
proof (rule finite_subset)
  let ?f = "\<lambda>(m :: int, e :: int). real_of_int m * pow2 e"
  let ?A = "{m :: int. \<bar>m\<bar> < 2 ^ 53}" and ?B = "{e :: int. - 1074 \<le> e \<and> e \<le> 971}"
  show "{x. representable x} \<subseteq> ?f ` (?A \<times> ?B)"
  proof
    fix x assume "x \<in> {x. representable x}"
    then obtain m e :: int where m: "\<bar>m\<bar> < 2 ^ 53" and e: "- 1074 \<le> e" "e \<le> 971"
      and x: "x = real_of_int m * pow2 e"
      unfolding representable_def by blast
    have "(m, e) \<in> ?A \<times> ?B" using m e by blast
    moreover have "x = ?f (m, e)" using x by simp
    ultimately show "x \<in> ?f ` (?A \<times> ?B)" by (rule rev_image_eqI)
  qed
  show "finite (?f ` (?A \<times> ?B))"
    by (intro finite_imageI finite_cartesian_product finite_abs_less finite_between)
qed

lemma pow2_0: "pow2 0 = 1"
  by (simp add: pow2_def)

lemma pow2_971: "pow2 971 = 2 ^ 971"
  by (simp add: pow2_def)

lemma pow2_le: 
  assumes "e \<le> 971"
  shows "pow2 e \<le> 2 ^ 971"
proof (cases "0 \<le> e")
  case True
  then have "nat e \<le> 971" using assms by simp
  then have "(2::real) ^ nat e \<le> 2 ^ 971" by (intro power_increasing) simp_all
  then show ?thesis using True by (simp add: pow2_def)
next
  case False
  have "1 / (2::real) ^ nat (- e) \<le> 1" by simp
  also have "(1::real) \<le> 2 ^ 971" by (rule one_le_power) simp
  finally show ?thesis using False by (simp add: pow2_def)
qed

lemma pow2_nonneg: "0 \<le> pow2 e"
  by (simp add: pow2_def)

lemma representable_0: "representable 0"
  unfolding representable_def by (intro exI [of _ 0]) simp

lemma representable_of_int:
  assumes "\<bar>n\<bar> < 2 ^ 53"
  shows "representable (of_int n)"
  unfolding representable_def using assms by (intro exI [of _ n] exI [of _ 0]) (simp add: pow2_0)

lemma representable_numeral:
  "(numeral k :: int) < 2 ^ 53 \<Longrightarrow> representable (numeral k)"
  using representable_of_int [of "numeral k"] by simp

lemma representable_1: "representable 1"
  using representable_of_int [of 1] by simp

lemma representable_MaxFloat64: "representable MaxFloat64_real"
proof -
  have "\<bar>2 ^ 53 - 1 :: int\<bar> < 2 ^ 53" by simp
  moreover have "MaxFloat64_real = of_int (2 ^ 53 - 1) * pow2 971"
    by (simp only: MaxFloat64_real_def pow2_971 of_int_diff of_int_power of_int_numeral of_int_1)
  ultimately show ?thesis
    unfolding representable_def by (intro exI [of _ "2 ^ 53 - 1"] exI [of _ 971]) simp
qed

lemma representable_bound:
  assumes "representable x"
  shows "\<bar>x\<bar> \<le> MaxFloat64_real"
proof -
  obtain m e :: int where m: "\<bar>m\<bar> < 2 ^ 53" and e: "e \<le> 971"
    and x: "x = of_int m * pow2 e"
    using assms unfolding representable_def by blast
  have "\<bar>m\<bar> \<le> 2 ^ 53 - 1" using m by simp
  then have "real_of_int \<bar>m\<bar> \<le> real_of_int (2 ^ 53 - 1)" by (simp only: of_int_le_iff)
  then have m': "\<bar>real_of_int m\<bar> \<le> 2 ^ 53 - 1" by simp
  have "\<bar>x\<bar> = \<bar>real_of_int m\<bar> * pow2 e"
    by (simp add: x abs_mult pow2_nonneg)
  also have "\<dots> \<le> (2 ^ 53 - 1) * 2 ^ 971"
    using m' pow2_le [OF e] pow2_nonneg [of e] by (intro mult_mono) simp_all
  finally show ?thesis by (simp only: MaxFloat64_real_def)
qed

lemma MaxFloat64_below_threshold: "MaxFloat64_real < overflow_threshold"
  by (simp add: MaxFloat64_real_def overflow_threshold_def)

lemma ex_nearest: "\<exists>y. nearest x y"
proof -
  let ?S = "{y. representable y}"
  let ?D = "(\<lambda>y. \<bar>y - x\<bar>) ` ?S"
  have fin: "finite ?D" using finite_representable by simp
  have ne: "?D \<noteq> {}" using representable_0 by auto
  have "Min ?D \<in> ?D" using fin ne by (rule Min_in)
  then obtain y where y: "representable y" and d: "\<bar>y - x\<bar> = Min ?D" by auto
  have "\<bar>y - x\<bar> \<le> \<bar>z - x\<bar>" if "representable z" for z
    using that fin d by (simp add: Min_le)
  then show ?thesis using y by (auto simp: nearest_def)
qed

lemma nearest_some: "nearest x (SOME y. nearest x y)"
  using ex_nearest by (rule someI_ex)

lemma nearest_exact: "representable x \<Longrightarrow> nearest x y \<Longrightarrow> y = x"
  unfolding nearest_def by force

lemma round64_exact:
  assumes "representable x"
  shows "round64 x = Fin x"
proof -
  have b: "\<bar>x\<bar> < overflow_threshold"
    using representable_bound [OF assms] MaxFloat64_below_threshold by simp
  have "(SOME y. nearest x y) = x"
    using nearest_exact [OF assms nearest_some] .
  then show ?thesis using b by (simp add: round64_def abs_less_iff)
qed

lemma nearest_representable: "nearest x y \<Longrightarrow> representable y"
  by (simp add: nearest_def)

lemma round64_in_range:
  assumes "\<bar>x\<bar> < overflow_threshold"
  shows "\<exists>y. round64 x = Fin y \<and> representable y"
proof -
  have "round64 x = Fin (SOME y. nearest x y)"
    using assms by (simp add: round64_def abs_less_iff)
  then show ?thesis
    using nearest_representable [OF nearest_some [of x]] by blast
qed

lemma round64_overflow: "overflow_threshold \<le> x \<Longrightarrow> round64 x = PInf"
  by (simp add: round64_def)

section \<open>Properties of the statistical reducer\<close>

lemma fadd_exact: "representable (a + b) \<Longrightarrow> fadd (Fin a) (Fin b) = Fin (a + b)"
  by (simp add: round64_exact)

lemma fadd_zero_left: "finite64 v \<Longrightarrow> fadd (Fin 0) v = v"
  by (cases v) (simp_all add: round64_exact)

lemma float64_of_nat_exact: "representable (real n) \<Longrightarrow> float64_of_nat n = Fin (real n)"
  by (simp add: float64_of_nat_def round64_exact)

lemma float64_of_nat_1: "float64_of_nat 1 = Fin 1"
  using float64_of_nat_exact [of 1] representable_1 by simp

lemma fdiv_exact:
  "b \<noteq> 0 \<Longrightarrow> representable (a / b) \<Longrightarrow> fdiv (Fin a) (Fin b) = Fin (a / b)"
  by (simp add: round64_exact)

lemma fdiv_one: "finite64 v \<Longrightarrow> fdiv v (Fin 1) = v"
  by (cases v) (simp_all add: round64_exact)

lemma finite64_round64: "\<bar>x\<bar> < overflow_threshold \<Longrightarrow> finite64 (round64 x)"
  using round64_in_range [of x] by auto

lemma finite64_bound: "finite64 (Fin r) \<Longrightarrow> \<bar>r\<bar> \<le> MaxFloat64_real"
  by (simp add: representable_bound)

lemma finite64_float64_of_int: "finite64 (float64_of_int i)"
proof -
  have "- (2 ^ 63) \<le> sint i" and "sint i < 2 ^ 63"
    using sint_ge [of i] sint_lt [of i] by simp_all
  then have b: "\<bar>sint i\<bar> \<le> (2 ^ 63 :: int)"
    by linarith
  have "\<bar>real_of_int (sint i)\<bar> = real_of_int \<bar>sint i\<bar>"
    by (simp only: of_int_abs)
  also have "\<dots> \<le> real_of_int (2 ^ 63)"
    using b by (simp only: of_int_le_iff)
  also have "\<dots> < overflow_threshold"
    by (simp add: overflow_threshold_def)
  finally have "\<bar>real_of_int (sint i)\<bar> < overflow_threshold" .
  then show ?thesis
    unfolding float64_of_int_def by (rule finite64_round64)
qed

lemma float64_of_int_exact:
  assumes "\<bar>sint i\<bar> < 2 ^ 53"
  shows "float64_of_int i = Fin (real_of_int (sint i))"
  unfolding float64_of_int_def using assms by (intro round64_exact representable_of_int)

subsection \<open>aggregateValues on finite values\<close>

lemma aggregate_loop_Fin:
  "aggregate_loop (map Fin rs) (s, Fin mn, Fin mx) =
     (foldl fadd s (map Fin rs), Fin (fold min rs mn), Fin (fold max rs mx))"
proof (induction rs arbitrary: s mn mx)
  case Nil
  show ?case by simp
next
  case (Cons r rs)
  have "aggregate_loop (map Fin (r # rs)) (s, Fin mn, Fin mx) =
          aggregate_loop (map Fin rs) (fadd s (Fin r), Fin (min r mn), Fin (max r mx))"
    by (simp add: min_def max_def)
  then show ?case
    by (simp only: Cons.IH) simp
qed

lemma fold_min_sentinel:
  assumes "rs \<noteq> []" and "\<forall>r\<in>set rs. r \<le> (M::real)"
  shows "fold min rs M = Min (set rs)"
proof -
  have "fold min rs M = Min (set (M # rs))"
    by (rule Min.set_eq_fold [symmetric])
  also have "\<dots> = min M (Min (set rs))"
    using assms(1) by simp
  also have "\<dots> = Min (set rs)"
  proof -
    have "Min (set rs) \<in> set rs" using assms(1) by (simp add: Min_in)
    then have "Min (set rs) \<le> M" using assms(2) by blast
    then show ?thesis by (rule min_absorb2)
  qed
  finally show ?thesis .
qed

lemma fold_max_sentinel:
  assumes "rs \<noteq> []" and "\<forall>r\<in>set rs. (M::real) \<le> r"
  shows "fold max rs M = Max (set rs)"
proof -
  have "fold max rs M = Max (set (M # rs))"
    by (rule Max.set_eq_fold [symmetric])
  also have "\<dots> = max M (Max (set rs))"
    using assms(1) by simp
  also have "\<dots> = Max (set rs)"
  proof -
    have "Max (set rs) \<in> set rs" using assms(1) by (simp add: Max_in)
    then have "M \<le> Max (set rs)" using assms(2) by blast
    then show ?thesis by (rule max_absorb2)
  qed
  finally show ?thesis .
qed

lemma aggregateValues_Fin:
  assumes "\<forall>r\<in>set rs. representable r"
  shows "aggregateValues (map Fin rs) = aggregate_numeric rs"
proof (cases "rs = []")
  case True
  then show ?thesis
    by (simp add: aggregateValues_def aggregate_numeric_def zero_AggregatedValue_def)
next
  case False
  have "\<forall>r\<in>set rs. \<bar>r\<bar> \<le> MaxFloat64_real"
    using assms representable_bound by blast
  then have lo: "\<forall>r\<in>set rs. - MaxFloat64_real \<le> r" and hi: "\<forall>r\<in>set rs. r \<le> MaxFloat64_real"
    by auto
  show ?thesis
    using False
    by (simp add: aggregateValues_def aggregate_numeric_def MaxFloat64_def aggregate_loop_Fin
        fold_min_sentinel [OF False hi] fold_max_sentinel [OF False lo])
qed

lemma foldl_fadd_exact:
  assumes "\<forall>k. 1 \<le> k \<and> k \<le> length rs \<longrightarrow> representable (s + sum_list (take k rs))"
  shows "foldl fadd (Fin s) (map Fin rs) = Fin (s + sum_list rs)"
  using assms
proof (induction rs arbitrary: s)
  case Nil
  show ?case by simp
next
  case (Cons r rs)
  have "representable (s + r)"
    using Cons.prems [rule_format, of 1] by simp
  have "\<forall>k. 1 \<le> k \<and> k \<le> length rs \<longrightarrow> representable (s + r + sum_list (take k rs))"
  proof (intro allI impI)
    fix k assume "1 \<le> k \<and> k \<le> length rs"
    then show "representable (s + r + sum_list (take k rs))"
      using Cons.prems [rule_format, of "Suc k"] by (simp add: add.assoc)
  qed
  from Cons.IH [OF this] show ?case
    using \<open>representable (s + r)\<close> by (simp add: round64_exact add.assoc)
qed

lemma aggregateValues_single:
  assumes "finite64 v"
  shows "aggregateValues [v] = \<lparr>av_Average = v, av_Min = v, av_Max = v, av_Values = [v]\<rparr>"
proof -
  obtain r where v: "v = Fin r" and r: "representable r"
    using assms by (cases v) auto
  have b: "\<bar>r\<bar> \<le> MaxFloat64_real" using r by (rule representable_bound)
  have "aggregateValues [v] = aggregate_numeric [r]"
    using aggregateValues_Fin [of "[r]"] r by (simp add: v)
  also have "\<dots> = \<lparr>av_Average = v, av_Min = v, av_Max = v, av_Values = [v]\<rparr>"
    using r by (simp add: aggregate_numeric_def v round64_exact float64_of_nat_1 [simplified])
  finally show ?thesis .
qed

text \<open>
  Claim C4, as amended. For every sequence of finite values, \<^verbatim>\<open>aggregateValues\<close> equals
  the reference definition: the zero-valued result with no values for the empty sequence;
  otherwise the \<^verbatim>\<open>float64\<close> sum of the values divided by their count, the exact
  minimum, the exact maximum, and the input itself in its order. The sum and the quotient
  are rounded as \<^verbatim>\<open>float64\<close> rounds; when every partial sum, the count and the mean are
  representable, so that nothing is rounded, the average is the mean itself.
\<close>

theorem aggregateValues_refines_aggregate_numeric:
  assumes "\<forall>r\<in>set rs. representable r"
  shows "aggregateValues (map Fin rs) = aggregate_numeric rs
       \<and> (rs \<noteq> [] \<and> (\<forall>k. 1 \<le> k \<and> k \<le> length rs \<longrightarrow> representable (sum_list (take k rs)))
            \<and> representable (real (length rs))
            \<and> representable (sum_list rs / real (length rs)) \<longrightarrow>
          av_Average (aggregateValues (map Fin rs)) = Fin (sum_list rs / real (length rs)))"
proof -
  have eq: "aggregateValues (map Fin rs) = aggregate_numeric rs"
    using assms by (rule aggregateValues_Fin)
  have "av_Average (aggregateValues (map Fin rs)) = Fin (sum_list rs / real (length rs))"
    if ne: "rs \<noteq> []"
      and sums: "\<forall>k. 1 \<le> k \<and> k \<le> length rs \<longrightarrow> representable (sum_list (take k rs))"
      and cnt: "representable (real (length rs))"
      and mean: "representable (sum_list rs / real (length rs))"
  proof -
    have "foldl fadd (Fin 0) (map Fin rs) = Fin (0 + sum_list rs)"
      using sums by (intro foldl_fadd_exact) simp
    moreover have "real (length rs) \<noteq> 0" using ne by simp
    ultimately show ?thesis
      using mean by (simp add: eq aggregate_numeric_def ne float64_of_nat_exact [OF cnt] round64_exact)
  qed
  then show ?thesis using eq by blast
qed

theorem aggregateValues_refines_aggregate_numeric_witness:
  "aggregateValues [Fin 10, Fin 20] =
     \<lparr>av_Average = Fin 15, av_Min = Fin 10, av_Max = Fin 20, av_Values = [Fin 10, Fin 20]\<rparr>
   \<and> aggregateValues [] =
     \<lparr>av_Average = Fin 0, av_Min = Fin 0, av_Max = Fin 0, av_Values = []\<rparr>"
proof -
  have r: "\<forall>r\<in>set [10, 20 :: real]. representable r"
    by (simp add: representable_numeral)
  have sums: "\<forall>k. 1 \<le> k \<and> k \<le> length [10, 20 :: real] \<longrightarrow>
                representable (sum_list (take k [10, 20 :: real]))"
  proof (intro allI impI)
    fix k :: nat assume "1 \<le> k \<and> k \<le> length [10, 20 :: real]"
    then have "k = 1 \<or> k = 2" by auto
    then show "representable (sum_list (take k [10, 20 :: real]))"
      by (auto simp: representable_numeral numeral_2_eq_2)
  qed
  have cnt: "representable (real (length [10, 20 :: real]))"
    by (simp add: representable_numeral)
  have mean: "representable (sum_list [10, 20 :: real] / real (length [10, 20 :: real]))"
    by (simp add: representable_numeral)
  note inst = aggregateValues_refines_aggregate_numeric [OF r]
  have eq: "aggregateValues (map Fin [10, 20]) = aggregate_numeric [10, 20]"
    using inst by (rule conjunct1)
  have ne: "[10, 20 :: real] \<noteq> []" by simp
  have avg0: "av_Average (aggregateValues (map Fin [10, 20])) =
                Fin (sum_list [10, 20] / real (length [10, 20 :: real]))"
    using inst [THEN conjunct2] ne sums cnt mean by blast
  have m15: "sum_list [10, 20 :: real] / real (length [10, 20 :: real]) = 15" by simp
  have avg: "av_Average (aggregateValues (map Fin [10, 20])) = Fin 15"
    using avg0 unfolding m15 .
  have rest: "av_Min (aggregate_numeric [10, 20]) = Fin 10"
    "av_Max (aggregate_numeric [10, 20]) = Fin 20"
    "av_Values (aggregate_numeric [10, 20]) = [Fin 10, Fin 20]"
    by (simp_all add: aggregate_numeric_def)
  have one: "aggregateValues (map Fin [10, 20]) =
     \<lparr>av_Average = Fin 15, av_Min = Fin 10, av_Max = Fin 20, av_Values = [Fin 10, Fin 20]\<rparr>"
  proof (rule AggregatedValue.equality)
    show "av_Average (aggregateValues (map Fin [10, 20])) =
          av_Average \<lparr>av_Average = Fin 15, av_Min = Fin 10, av_Max = Fin 20,
            av_Values = [Fin 10, Fin 20]\<rparr>"
      using avg by simp
    show "av_Min (aggregateValues (map Fin [10, 20])) =
          av_Min \<lparr>av_Average = Fin 15, av_Min = Fin 10, av_Max = Fin 20,
            av_Values = [Fin 10, Fin 20]\<rparr>"
      using rest(1) by (simp add: eq [simplified])
    show "av_Max (aggregateValues (map Fin [10, 20])) =
          av_Max \<lparr>av_Average = Fin 15, av_Min = Fin 10, av_Max = Fin 20,
            av_Values = [Fin 10, Fin 20]\<rparr>"
      using rest(2) by (simp add: eq [simplified])
    show "av_Values (aggregateValues (map Fin [10, 20])) =
          av_Values \<lparr>av_Average = Fin 15, av_Min = Fin 10, av_Max = Fin 20,
            av_Values = [Fin 10, Fin 20]\<rparr>"
      using rest(3) by (simp add: eq [simplified])
  qed simp
  have e: "\<forall>r\<in>set ([] :: real list). representable r" by simp
  have none: "aggregateValues (map Fin []) =
     \<lparr>av_Average = Fin 0, av_Min = Fin 0, av_Max = Fin 0, av_Values = []\<rparr>"
    using aggregateValues_refines_aggregate_numeric [OF e] by (simp add: aggregate_numeric_def)
  show ?thesis using one none by simp
qed

text \<open>
  Claim C4 as stated fails where the \<^verbatim>\<open>float64\<close> sum rounds: two readings of
  \<^verbatim>\<open>math.MaxFloat64\<close>, a number JSON can carry, have the mean \<^verbatim>\<open>math.MaxFloat64\<close>, but
  their sum overflows, and the average returned is positive infinity, above the maximum.
\<close>

theorem aggregateValues_overflow_counterexample:
  "aggregateValues [MaxFloat64, MaxFloat64] =
     \<lparr>av_Average = PInf, av_Min = MaxFloat64, av_Max = MaxFloat64,
      av_Values = [MaxFloat64, MaxFloat64]\<rparr>
   \<and> (MaxFloat64_real + MaxFloat64_real) / 2 = MaxFloat64_real
   \<and> finite64 MaxFloat64"
proof -
  have pos: "0 < MaxFloat64_real"
    by (simp add: MaxFloat64_real_def)
  have s1: "round64 MaxFloat64_real = Fin MaxFloat64_real"
    using representable_MaxFloat64 by (rule round64_exact)
  have "overflow_threshold \<le> 2 * MaxFloat64_real"
    by (simp add: overflow_threshold_def MaxFloat64_real_def)
  then have s2: "round64 (2 * MaxFloat64_real) = PInf"
    by (rule round64_overflow)
  have two: "float64_of_nat (Suc (Suc 0)) = Fin 2"
    using float64_of_nat_exact [of 2] by (simp add: representable_numeral numeral_2_eq_2)
  show ?thesis
    by (simp add: aggregateValues_def MaxFloat64_def s1 s2 two pos representable_MaxFloat64)
qed

subsection \<open>mostFrequent\<close>

lemma tally_lookup:
  "tally vs freq v =
     (if v \<in> set vs
      then Some (count_list vs v + (case freq v of None \<Rightarrow> 0 | Some c \<Rightarrow> c))
      else freq v)"
  by (induction vs arbitrary: freq) auto

lemma tally_empty:
  "tally vs Map.empty v = (if v \<in> set vs then Some (count_list vs v) else None)"
  by (simp add: tally_lookup)

lemma dom_tally_empty: "dom (tally vs Map.empty) = set vs"
  by (auto simp: tally_empty dom_def)

lemma scan_ge: "m \<le> fst (scan freq ks (m, res))"
proof (induction ks arbitrary: m res)
  case Nil
  show ?case by simp
next
  case (Cons k ks)
  show ?case
  proof (cases "freq k")
    case None
    then show ?thesis using Cons.IH [of m res] by simp
  next
    case (Some f)
    show ?thesis
    proof (cases "f > m")
      case True
      then show ?thesis using Some Cons.IH [of f k] by simp
    next
      case False
      then show ?thesis using Some Cons.IH [of m res] by simp
    qed
  qed
qed

lemma scan_upper:
  "k \<in> set ks \<Longrightarrow> freq k = Some f \<Longrightarrow> f \<le> fst (scan freq ks (m, res))"
proof (induction ks arbitrary: m res)
  case Nil
  then show ?case by simp
next
  case (Cons x ks)
  show ?case
  proof (cases "k = x")
    case True
    show ?thesis
    proof (cases "f > m")
      case True
      with \<open>k = x\<close> Cons.prems scan_ge [of f freq ks x] show ?thesis by simp
    next
      case False
      with \<open>k = x\<close> Cons.prems scan_ge [of m freq ks res] show ?thesis by simp
    qed
  next
    case False
    with Cons.prems have "k \<in> set ks" by simp
    note ih = Cons.IH [OF this Cons.prems(2)]
    show ?thesis
      using ih [of m res] ih [of "the (freq x)" x]
      by (cases "freq x") auto
  qed
qed

lemma scan_result:
  "scan freq ks (m, res) = (m', res') \<Longrightarrow>
     (m' = m \<and> res' = res) \<or> (res' \<in> set ks \<and> freq res' = Some m' \<and> m < m')"
proof (induction ks arbitrary: m res)
  case Nil
  then show ?case by simp
next
  case (Cons x ks)
  show ?case
  proof (cases "freq x")
    case None
    with Cons.prems have "scan freq ks (m, res) = (m', res')" by simp
    from Cons.IH [OF this] show ?thesis by auto
  next
    case (Some f)
    show ?thesis
    proof (cases "f > m")
      case True
      with Some Cons.prems have "scan freq ks (f, x) = (m', res')" by simp
      from Cons.IH [OF this] True Some show ?thesis by auto
    next
      case False
      with Some Cons.prems have "scan freq ks (m, res) = (m', res')" by simp
      from Cons.IH [OF this] show ?thesis by auto
    qed
  qed
qed

lemma mostFrequent_Nil: "mostFrequent keys [] = []"
proof -
  have "scan Map.empty ks (m, res) = (m, res)" for ks m res
    by (induction ks) simp_all
  then show ?thesis by (simp add: mostFrequent_def)
qed

lemma mostFrequent_max:
  assumes "set values \<subseteq> set keys" and "values \<noteq> []"
  shows "mostFrequent keys values \<in> set values"
    and "count_list values v \<le> count_list values (mostFrequent keys values)"
proof -
  let ?freq = "tally values Map.empty"
  obtain m' res' where sc: "scan ?freq keys (0, []) = (m', res')"
    by (cases "scan ?freq keys (0, [])")
  have res: "mostFrequent keys values = res'"
    by (simp add: mostFrequent_def sc)
  obtain x where x: "x \<in> set values" using assms(2) by (cases "values") auto
  then have "?freq x = Some (count_list values x)" by (simp add: tally_empty)
  moreover have "x \<in> set keys" using x assms(1) by blast
  ultimately have "count_list values x \<le> m'"
    using scan_upper [of x keys ?freq "count_list values x" 0 "[]"] sc by simp
  moreover have "0 < count_list values x"
    using x count_list_0_iff [of "values" x] by simp
  ultimately have "0 < m'" by simp
  with scan_result [OF sc] have r: "?freq res' = Some m'" by auto
  then have in_values: "res' \<in> set values" and cnt: "count_list values res' = m'"
    by (auto simp: tally_empty split: if_splits)
  show "mostFrequent keys values \<in> set values" using in_values res by simp
  show "count_list values v \<le> count_list values (mostFrequent keys values)"
  proof (cases "v \<in> set values")
    case True
    then have "?freq v = Some (count_list values v)" by (simp add: tally_empty)
    moreover have "v \<in> set keys" using True assms(1) by blast
    ultimately have "count_list values v \<le> m'"
      using scan_upper [of v keys ?freq "count_list values v" 0 "[]"] sc by simp
    then show ?thesis by (simp add: res cnt)
  next
    case False
    then show ?thesis by (simp add: count_list_0_iff)
  qed
qed

text \<open>
  Claim C5. For every order in which the map of the tally is visited: on a non-empty
  sequence \<^verbatim>\<open>mostFrequent\<close> returns an element of the sequence that no other value
  occurs more often than; on \<^verbatim>\<open>["rain", "rain", "sun"]\<close> it returns \<^verbatim>\<open>"rain"\<close>; on
  the empty sequence it returns the empty string.
\<close>

theorem mostFrequent_maximal_count:
  assumes "iteration_order keys values"
  shows "(values \<noteq> [] \<longrightarrow>
            mostFrequent keys values \<in> set values \<and>
            (\<forall>v. count_list values v \<le> count_list values (mostFrequent keys values)))
       \<and> (values = [''rain'', ''rain'', ''sun''] \<longrightarrow> mostFrequent keys values = ''rain'')
       \<and> (values = [] \<longrightarrow> mostFrequent keys values = [])"
proof -
  have sub: "set values \<subseteq> set keys"
    using assms by (simp add: iteration_order_def dom_tally_empty)
  have a: "values \<noteq> [] \<longrightarrow>
            mostFrequent keys values \<in> set values \<and>
            (\<forall>v. count_list values v \<le> count_list values (mostFrequent keys values))"
    using mostFrequent_max [OF sub] by blast
  have b: "mostFrequent keys values = ''rain''" if v: "values = [''rain'', ''rain'', ''sun'']"
  proof -
    have ne: "values \<noteq> []" using v by simp
    have "mostFrequent keys values \<in> set values"
      using mostFrequent_max(1) [OF sub ne] .
    moreover have "count_list values ''rain'' \<le> count_list values (mostFrequent keys values)"
      using mostFrequent_max(2) [OF sub ne] .
    ultimately show ?thesis unfolding v by auto
  qed
  have c: "values = [] \<longrightarrow> mostFrequent keys values = []"
    by (simp add: mostFrequent_Nil)
  show ?thesis using a b c by blast
qed

theorem mostFrequent_maximal_count_witness:
  "iteration_order [''sun'', ''rain''] [''rain'', ''rain'', ''sun'']
   \<and> mostFrequent [''sun'', ''rain''] [''rain'', ''rain'', ''sun''] = ''rain''
   \<and> count_list [''rain'', ''rain'', ''sun''] ''sun''
       \<le> count_list [''rain'', ''rain'', ''sun''] (mostFrequent [''sun'', ''rain''] [''rain'', ''rain'', ''sun''])"
proof -
  have h: "iteration_order [''sun'', ''rain''] [''rain'', ''rain'', ''sun'']"
    by (auto simp: iteration_order_def)
  show ?thesis
    using h mostFrequent_maximal_count [OF h] by simp
qed

section \<open>Properties of the aggregation engine\<close>

subsection \<open>The cache, the channels and the shape of a call\<close>

lemma getFromCache_snd: "snd (getFromCache now a key) = a"
  by (simp add: getFromCache_def split: option.split)

lemma getFromCache_fst:
  "fst (getFromCache now a key) =
     (case cache a key of
        None \<Rightarrow> None
      | Some entry \<Rightarrow> if now - timestamp entry > cacheTTL a then None else Some (data entry))"
  by (simp add: getFromCache_def split: option.split)

lemma length_drain:
  "length (drain_results xs) + length (drain_errors xs) = length xs"
  by (induction xs rule: drain_results.induct) simp_all

lemma drain_results_filter: "drain_results xs = map projr (filter (\<lambda>x. \<not> isl x) xs)"
  by (induction xs rule: drain_results.induct) simp_all

lemma drain_errors_filter: "drain_errors xs = map projl (filter isl xs)"
  by (induction xs rule: drain_errors.induct) simp_all

lemma all_joined_length: "all_joined r a \<Longrightarrow> length (completion r) = length (providers a)"
  using mset_eq_length [of "completion r" "[0..<length (providers a)]"]
  by (simp add: all_joined_def)

lemma all_joined_set: "all_joined r a \<Longrightarrow> set (completion r) = {0..<length (providers a)}"
  using mset_eq_setD [of "completion r" "[0..<length (providers a)]"]
  by (simp add: all_joined_def)

lemma all_joined_distinct: "all_joined r a \<Longrightarrow> distinct (completion r)"
  using mset_eq_imp_distinct_iff [of "completion r" "[0..<length (providers a)]"]
  by (simp add: all_joined_def)

lemma length_sent: "length (sent r a city country) = length (completion r)"
  by (simp add: sent_def)

lemma goroutine_isl: "isl (goroutine r city country i (providers a ! i)) \<longleftrightarrow> fails r a city country i"
  by (simp add: goroutine_def fails_def split: option.split sum.split)

lemma goroutine_fails:
  "fails r a city country i \<Longrightarrow>
     goroutine r city country i (providers a ! i) = Inl (failure_message r a city country i)"
  by (auto simp: goroutine_def fails_def failure_message_def split: option.split sum.split)

lemma goroutine_succeeds:
  "\<not> fails r a city country i \<Longrightarrow>
     goroutine r city country i (providers a ! i) =
       Inr (projr (p_GetWeather (providers a ! i) city country))"
  by (auto simp: goroutine_def fails_def split: option.split sum.split)

lemma succeeds_not_fails:
  "succeeds r a city country i w \<Longrightarrow> \<not> fails r a city country i"
  by (simp add: succeeds_def fails_def)

text \<open>The readings drained, in the order of completion.\<close>

lemma drain_results_sent:
  "drain_results (sent r a city country) =
     map (\<lambda>i. projr (p_GetWeather (providers a ! i) city country))
       (filter (\<lambda>i. \<not> fails r a city country i) (completion r))"
proof -
  have "drain_results (sent r a city country) =
          map (\<lambda>i. projr (goroutine r city country i (providers a ! i)))
            (filter (\<lambda>i. \<not> fails r a city country i) (completion r))"
    by (simp add: drain_results_filter sent_def filter_map comp_def goroutine_isl)
  also have "\<dots> = map (\<lambda>i. projr (p_GetWeather (providers a ! i) city country))
            (filter (\<lambda>i. \<not> fails r a city country i) (completion r))"
    by (rule map_cong) (simp_all add: goroutine_succeeds)
  finally show ?thesis .
qed

lemma drain_errors_sent:
  "drain_errors (sent r a city country) =
     map (failure_message r a city country) (filter (fails r a city country) (completion r))"
proof -
  have "drain_errors (sent r a city country) =
          map (\<lambda>i. projl (goroutine r city country i (providers a ! i)))
            (filter (fails r a city country) (completion r))"
    by (simp add: drain_errors_filter sent_def filter_map comp_def goroutine_isl)
  also have "\<dots> = map (failure_message r a city country)
            (filter (fails r a city country) (completion r))"
    by (rule map_cong) (simp_all add: goroutine_fails)
  finally show ?thesis .
qed

lemma GetWeather_hit:
  assumes "cache a (cacheKey city country) = Some entry"
      and "now_lookup r - timestamp entry \<le> cacheTTL a"
  shows "GetWeather r a city country = (Inr (data entry), a, [])"
  using assms by (simp add: GetWeather_def getFromCache_def)

lemma GetWeather_miss:
  assumes "cache_miss r a city country"
  shows "GetWeather r a city country =
     (if providers a = [] then (Inl NoProvidersAvailable, a, [])
      else if drain_results (sent r a city country) = [] then
        (if drain_errors (sent r a city country) \<noteq> []
         then (Inl (AllProvidersFailed (drain_errors (sent r a city country))), a, invoked r a)
         else (Inl EmptyResultSet, a, invoked r a))
      else
        (Inr (aggregateWeather r (drain_results (sent r a city country)) city country),
         saveToCache (now_save r) a (cacheKey city country)
           (aggregateWeather r (drain_results (sent r a city country)) city country),
         invoked r a))"
proof -
  have "getFromCache (now_lookup r) a (cacheKey city country) = (None, a)"
    using assms getFromCache_snd [of "now_lookup r" a "cacheKey city country"]
    by (simp add: cache_miss_def prod_eq_iff)
  then show ?thesis
    by (simp add: GetWeather_def Let_def)
qed

lemma GetWeather_not_miss:
  assumes "\<not> cache_miss r a city country"
  shows "\<exists>w. GetWeather r a city country = (Inr w, a, [])"
proof -
  obtain w where "fst (getFromCache (now_lookup r) a (cacheKey city country)) = Some w"
    using assms by (auto simp: cache_miss_def)
  then have "getFromCache (now_lookup r) a (cacheKey city country) = (Some w, a)"
    using getFromCache_snd [of "now_lookup r" a "cacheKey city country"]
    by (simp add: prod_eq_iff)
  then show ?thesis by (simp add: GetWeather_def)
qed

lemma one_outcome_each:
  assumes "all_joined r a"
  shows "length (drain_results (sent r a city country))
           + length (drain_errors (sent r a city country)) = length (providers a)"
  using assms by (simp add: length_drain length_sent all_joined_length)

lemma no_success_some_error:
  assumes "all_joined r a" and "providers a \<noteq> []"
      and "drain_results (sent r a city country) = []"
  shows "drain_errors (sent r a city country) \<noteq> []"
  using one_outcome_each [OF assms(1), of city country] assms(2,3) by auto

lemma EmptyResultSet_never:
  assumes "providers a \<noteq> []" and "all_joined r a"
  shows "fst (GetWeather r a city country) \<noteq> Inl EmptyResultSet"
proof (cases "cache_miss r a city country")
  case True
  show ?thesis
    using no_success_some_error [OF assms(2,1), of city country]
    by (simp add: GetWeather_miss [OF True] assms(1))
next
  case False
  from GetWeather_not_miss [OF this] show ?thesis by auto
qed

lemma all_failed:
  assumes "cache_miss r a city country" and "providers a \<noteq> []" and "all_joined r a"
      and "\<forall>i < length (providers a). fails r a city country i"
  shows "GetWeather r a city country =
           (Inl (AllProvidersFailed (map (failure_message r a city country) (completion r))),
            a, invoked r a)"
    and "length (map (failure_message r a city country) (completion r)) = length (providers a)"
proof -
  have all: "\<forall>i \<in> set (completion r). fails r a city country i"
    using assms(4) all_joined_set [OF assms(3)] by simp
  then have f1: "filter (fails r a city country) (completion r) = completion r"
    by simp
  have f2: "filter (\<lambda>i. \<not> fails r a city country i) (completion r) = []"
    using all by (simp add: filter_empty_conv)
  have "completion r \<noteq> []"
    using all_joined_length [OF assms(3)] assms(2) by auto
  then show "GetWeather r a city country =
           (Inl (AllProvidersFailed (map (failure_message r a city country) (completion r))),
            a, invoked r a)"
    by (simp add: GetWeather_miss [OF assms(1)] assms(2) drain_results_sent drain_errors_sent f1 f2)
  show "length (map (failure_message r a city country) (completion r)) = length (providers a)"
    by (simp add: all_joined_length [OF assms(3)])
qed

lemma failure_message_tagged:
  "ctx_done r i = None \<Longrightarrow> tagged (Name (providers a ! i)) (failure_message r a city country i)"
  by (simp add: tagged_def failure_message_def)

lemma failure_message_cancelled:
  "ctx_done r i = Some e \<Longrightarrow> failure_message r a city country i = ctx_Err_Error e"
  by (simp add: failure_message_def)

lemma filter_eq_single: "distinct xs \<Longrightarrow> i \<in> set xs \<Longrightarrow> filter (\<lambda>j. j = i) xs = [i]"
  by (induction xs) (auto simp: filter_empty_conv)

lemma only_success:
  assumes "all_joined r a" and "succeeds r a city country i w"
      and "\<forall>j < length (providers a). j \<noteq> i \<longrightarrow> fails r a city country j"
  shows "drain_results (sent r a city country) = [w]"
proof -
  have i: "i \<in> set (completion r)"
    using assms(2) all_joined_set [OF assms(1)] by (simp add: succeeds_def)
  have "filter (\<lambda>j. \<not> fails r a city country j) (completion r) = filter (\<lambda>j. j = i) (completion r)"
  proof (rule filter_cong [OF refl])
    fix j assume "j \<in> set (completion r)"
    then have "j < length (providers a)" using all_joined_set [OF assms(1)] by simp
    then show "(\<not> fails r a city country j) = (j = i)"
      using assms(3) succeeds_not_fails [OF assms(2)] by blast
  qed
  also have "\<dots> = [i]"
    using filter_eq_single [OF all_joined_distinct [OF assms(1)] i] .
  finally show ?thesis
    using assms(2) by (simp add: drain_results_sent succeeds_def)
qed

lemma success_drained:
  assumes "all_joined r a" and "succeeds r a city country i w"
  shows "w \<in> set (drain_results (sent r a city country))"
proof -
  have "i \<in> set (completion r)"
    using assms(2) all_joined_set [OF assms(1)] by (simp add: succeeds_def)
  moreover have "\<not> fails r a city country i"
    using succeeds_not_fails [OF assms(2)] .
  moreover have "projr (p_GetWeather (providers a ! i) city country) = w"
    using assms(2) by (simp add: succeeds_def)
  ultimately show ?thesis
    by (force simp: drain_results_sent)
qed

lemma mset_drained:
  assumes "all_joined r a"
  shows "mset (drain_results (sent r a city country)) =
           mset (map (\<lambda>i. projr (p_GetWeather (providers a ! i) city country))
             (filter (\<lambda>i. \<not> fails r a city country i) [0..<length (providers a)]))"
proof -
  have "mset (filter (\<lambda>i. \<not> fails r a city country i) (completion r)) =
        mset (filter (\<lambda>i. \<not> fails r a city country i) [0..<length (providers a)])"
    using assms by (simp add: all_joined_def)
  then show ?thesis
    by (simp only: drain_results_sent mset_map)
qed

subsection \<open>The keys of the cache\<close>

lemma cacheKey_city:
  assumes "CHR '','' \<notin> set city"
  shows "takeWhile (\<lambda>c. c \<noteq> CHR '','') (cacheKey city country) = city"
proof -
  have "takeWhile (\<lambda>c. c \<noteq> CHR '','') (city @ '','' @ country) =
          city @ takeWhile (\<lambda>c. c \<noteq> CHR '','') ('','' @ country)"
    using assms by (intro takeWhile_append2) auto
  then show ?thesis by (simp add: cacheKey_def)
qed

lemma cacheKey_inj:
  assumes "CHR '','' \<notin> set city1" and "CHR '','' \<notin> set city2"
      and "cacheKey city1 country1 = cacheKey city2 country2"
  shows "city1 = city2 \<and> country1 = country2"
proof -
  have "city1 = city2"
    using cacheKey_city [OF assms(1), of country1] cacheKey_city [OF assms(2), of country2] assms(3)
    by simp
  then show ?thesis using assms(3) by (simp add: cacheKey_def)
qed

lemma getFromCache_other_key:
  "key1 \<noteq> key2 \<Longrightarrow>
     fst (getFromCache now (saveToCache t a key1 v) key2) = fst (getFromCache now a key2)"
  by (simp add: getFromCache_fst saveToCache_def split: option.split)

lemma GetWeather_success_cached:
  assumes "GetWeather r a city country = (Inr w, a1, calls)"
  shows "\<exists>e. cache a1 (cacheKey city country) = Some e \<and> data e = w"
proof (cases "cache_miss r a city country")
  case True
  show ?thesis
    using assms unfolding GetWeather_miss [OF True]
    by (auto simp: saveToCache_def split: if_splits)
next
  case False
  then obtain w' where w': "fst (getFromCache (now_lookup r) a (cacheKey city country)) = Some w'"
    by (auto simp: cache_miss_def)
  then have "getFromCache (now_lookup r) a (cacheKey city country) = (Some w', a)"
    using getFromCache_snd [of "now_lookup r" a "cacheKey city country"]
    by (simp add: prod_eq_iff)
  then have "w' = w" "a1 = a" using assms by (simp_all add: GetWeather_def)
  then show ?thesis
    using w' by (auto simp: getFromCache_fst split: option.splits if_splits)
qed

subsection \<open>One reading\<close>

lemma av_Values_aggregateValues: "av_Values (aggregateValues vs) = vs"
  by (cases "vs = []")
    (simp_all add: aggregateValues_def zero_AggregatedValue_def split: prod.split)

lemma aggregateWeather_single:
  "aw_Providers (aggregateWeather r [w] city country) = [Provider w]"
  "aw_Humidity (aggregateWeather r [w] city country) = single_value (float64_of_int (Humidity w))"
  "aw_Pressure (aggregateWeather r [w] city country) = single_value (float64_of_int (Pressure w))"
  "finite64 (Temperature w) \<Longrightarrow>
     aw_Temperature (aggregateWeather r [w] city country) = single_value (Temperature w)"
  "finite64 (FeelsLike w) \<Longrightarrow>
     aw_FeelsLike (aggregateWeather r [w] city country) = single_value (FeelsLike w)"
  "finite64 (WindSpeed w) \<Longrightarrow>
     aw_WindSpeed (aggregateWeather r [w] city country) = single_value (WindSpeed w)"
  by (simp_all add: aggregateWeather_def single_value_def aggregateValues_single
      finite64_float64_of_int)

lemma pow2_le_1: "e \<le> 0 \<Longrightarrow> pow2 e \<le> 1"
  by (cases "e = 0") (simp_all add: pow2_def)

lemma not_representable_odd:
  "\<not> representable 9007199254740993"
proof
  assume "representable 9007199254740993"
  then obtain m e :: int where m: "\<bar>m\<bar> < 2 ^ 53"
    and x: "(9007199254740993 :: real) = of_int m * pow2 e"
    unfolding representable_def by blast
  show False
  proof (cases "e \<le> 0")
    case True
    have "\<bar>real_of_int m * pow2 e\<bar> = \<bar>real_of_int m\<bar> * pow2 e"
      by (simp add: abs_mult pow2_nonneg)
    also have "\<dots> \<le> \<bar>real_of_int m\<bar> * 1"
      using pow2_le_1 [OF True] by (intro mult_left_mono) simp_all
    also have "\<dots> < 2 ^ 53"
    proof -
      have "real_of_int \<bar>m\<bar> < real_of_int (2 ^ 53)" using m by (simp only: of_int_less_iff)
      then show ?thesis by simp
    qed
    finally show False using x by simp
  next
    case False
    then obtain n where n: "nat e = Suc n" by (cases "nat e") auto
    have "pow2 e = 2 ^ Suc n" using False n by (simp add: pow2_def)
    then have "(9007199254740993 :: real) = of_int (m * 2 ^ Suc n)"
      using x by simp
    then have "real_of_int 9007199254740993 = real_of_int (m * 2 ^ Suc n)"
      by simp
    then have "(9007199254740993 :: int) = m * 2 ^ Suc n"
      by (simp only: of_int_eq_iff)
    moreover have "even (m * 2 ^ Suc n)" by simp
    moreover have "odd (9007199254740993 :: int)" by simp
    ultimately show False by simp
  qed
qed

lemma float64_of_int_rounds:
  "float64_of_int 9007199254740993 \<noteq> Fin 9007199254740993"
proof -
  have "finite64 (float64_of_int 9007199254740993)"
    by (rule finite64_float64_of_int)
  then show ?thesis using not_representable_odd by (auto simp: )
qed

subsection \<open>The readings of the adapters\<close>

lemma const_3_6_ge_1: "1 \<le> const_3_6"
  by (simp add: const_3_6_def)

lemma finite64_fdiv_const:
  assumes "finite64 v"
  shows "finite64 (fdiv v (Fin const_3_6))"
proof -
  obtain k where v: "v = Fin k" and k: "representable k"
    using assms by (cases v) auto
  have pos: "0 < const_3_6" using const_3_6_ge_1 by simp
  have "\<bar>k / const_3_6\<bar> = \<bar>k\<bar> / const_3_6"
    using pos by simp
  also have "\<dots> \<le> \<bar>k\<bar> / 1"
    using const_3_6_ge_1 by (intro divide_left_mono) simp_all
  also have "\<dots> \<le> MaxFloat64_real"
    using representable_bound [OF k] by simp
  finally have "\<bar>k / const_3_6\<bar> < overflow_threshold"
    using MaxFloat64_below_threshold by simp
  then have "finite64 (round64 (k / const_3_6))"
    by (rule finite64_round64)
  then show ?thesis using pos by (simp add: v)
qed

lemma OpenWeather_reading:
  assumes "decoded_ow ex" and "OpenWeather_GetWeather apiKey ex now city country = Inr w"
  shows "Provider w = OpenWeather_Name \<and> finite64 (Temperature w) \<and> finite64 (FeelsLike w)
       \<and> finite64 (WindSpeed w)"
  using assms
  by (auto simp: OpenWeather_GetWeather_def split: if_splits exchange.splits sum.splits)

lemma WeatherAPI_reading:
  assumes "decoded_wa ex" and "WeatherAPI_GetWeather apiKey ex now city country = Inr w"
  shows "Provider w = WeatherAPI_Name \<and> finite64 (Temperature w) \<and> finite64 (FeelsLike w)
       \<and> finite64 (WindSpeed w)"
  using assms
  by (auto simp: WeatherAPI_GetWeather_def finite64_fdiv_const
      split: if_splits exchange.splits sum.splits)

lemma adapter_reading:
  assumes "adapter p" and "p_GetWeather p city country = Inr w"
  shows "Provider w = Name p \<and> finite64 (Temperature w) \<and> finite64 (FeelsLike w)
       \<and> finite64 (WindSpeed w)"
proof -
  consider apiKey ex now where "decoded_ow ex" "p = OpenWeatherProvider apiKey ex now"
    | apiKey ex now where "decoded_wa ex" "p = WeatherAPIProvider apiKey ex now"
    using assms(1) unfolding adapter_def by blast
  then show ?thesis
  proof cases
    case 1
    then show ?thesis
      using OpenWeather_reading [OF 1(1), of apiKey now city country w] assms(2)
      by (simp add: OpenWeatherProvider_def)
  next
    case 2
    then show ?thesis
      using WeatherAPI_reading [OF 2(1), of apiKey now city country w] assms(2)
      by (simp add: WeatherAPIProvider_def)
  qed
qed

subsection \<open>The example data, evaluated\<close>

lemma three_providers_eq:
  "three_providers =
     \<lparr>providers = [provider_B, provider_A, provider_C], cache = Map.empty,
      cacheTTL = 600000000000\<rparr>"
  by (simp add: three_providers_def AddProvider_def NewAggregator_def Minute_def
      provider_A_def provider_B_def provider_C_def)

lemma three_joined: "all_joined run_0 three_providers"
  by (simp add: all_joined_def three_providers_eq run_0_def)

lemma three_joined_cancelled: "all_joined run_cancelled three_providers"
  by (simp add: all_joined_def three_providers_eq run_0_def run_cancelled_def)

lemma three_miss: "cache_miss r three_providers city country"
  by (simp add: cache_miss_def getFromCache_fst three_providers_eq)

lemma three_providers_call:
  "GetWeather run_0 three_providers city country =
     (Inr (aggregateWeather run_0 [reading_A] city country),
      saveToCache 2 three_providers (cacheKey city country)
        (aggregateWeather run_0 [reading_A] city country),
      [''C'', ''B'', ''A''])"
  by (simp add: GetWeather_miss [OF three_miss])
    (simp add: three_providers_eq run_0_def sent_def goroutine_def invoked_def
      provider_A_def provider_B_def provider_C_def)

lemma three_adapters_eq:
  "three_adapters =
     \<lparr>providers = [adapter_0, adapter_1, adapter_2], cache = Map.empty,
      cacheTTL = 600000000000\<rparr>"
  by (simp add: three_adapters_def AddProvider_def NewAggregator_def Minute_def
      adapter_0_def adapter_1_def adapter_2_def OpenWeatherProvider_def WeatherAPIProvider_def)

lemma adapter_0_ok: "adapter adapter_0"
  unfolding adapter_def adapter_0_def
  by (rule disjI2, intro exI [of _ "''key0''"] exI [of _ "DoError ''timeout''"] exI [of _ 1])
    simp

lemma adapter_1_ok: "adapter adapter_1"
  unfolding adapter_def adapter_1_def
  by (rule disjI1,
      intro exI [of _ "''key1''"] exI [of _ "Response 200 (Inr ow_paris)"] exI [of _ 1])
    (simp add: ow_paris_def representable_numeral)

lemma adapter_2_ok: "adapter adapter_2"
  unfolding adapter_def adapter_2_def
  by (rule disjI2,
      intro exI [of _ "''key2''"] exI [of _ 1]
        exI [of _ "Response 401
          \<lparr>wa_error = Inr ''API key is invalid'', wa_result = Inl ''no result''\<rparr>"])
    simp

lemma three_adapters_joined: "all_joined run_0 three_adapters"
  by (simp add: all_joined_def three_adapters_eq run_0_def)

lemma three_adapters_miss: "cache_miss r three_adapters city country"
  by (simp add: cache_miss_def getFromCache_fst three_adapters_eq)

lemma three_adapters_succeed: "succeeds run_0 three_adapters ''Paris'' ''FR'' 1 reading_paris"
  by (simp add: succeeds_def three_adapters_eq run_0_def adapter_1_def OpenWeatherProvider_def
      OpenWeather_GetWeather_def ow_paris_def reading_paris_def OpenWeather_Name_def
      time_Unix_def)

lemma three_adapters_fail:
  "fails run_0 three_adapters ''Paris'' ''FR'' 0"
  "fails run_0 three_adapters ''Paris'' ''FR'' 2"
  by (simp_all add: fails_def three_adapters_eq adapter_0_def adapter_2_def
      WeatherAPIProvider_def WeatherAPI_GetWeather_def)

lemma one_adapter_eq:
  "one_adapter = \<lparr>providers = [adapter_big], cache = Map.empty, cacheTTL = 600000000000\<rparr>"
  by (simp add: one_adapter_def AddProvider_def NewAggregator_def Minute_def adapter_big_def
      OpenWeatherProvider_def)

lemma adapter_big_reading:
  "p_GetWeather adapter_big ''Paris'' ''FR'' = Inr reading_big"
  by (simp add: adapter_big_def OpenWeatherProvider_def OpenWeather_GetWeather_def ow_paris_def
      reading_big_def reading_paris_def OpenWeather_Name_def time_Unix_def)

lemma GetWeather_aggregator:
  assumes "GetWeather r a city country = (res, a1, calls)"
  shows "providers a1 = providers a \<and> cacheTTL a1 = cacheTTL a
       \<and> (\<forall>key. key \<noteq> cacheKey city country \<longrightarrow> cache a1 key = cache a key)"
proof (cases "cache_miss r a city country")
  case True
  show ?thesis
    using assms unfolding GetWeather_miss [OF True]
    by (auto simp: saveToCache_def split: if_splits)
next
  case False
  from GetWeather_not_miss [OF this] obtain w
    where "GetWeather r a city country = (Inr w, a, [])" by blast
  then show ?thesis using assms by simp
qed

lemma GetWeather_stores:
  assumes "GetWeather r a city country = (res, a1, calls)"
      and "cache_miss r a city country" and "\<not> isl res"
  shows "cache a1 = (cache a)(cacheKey city country \<mapsto> \<lparr>data = projr res, timestamp = now_save r\<rparr>)"
  using assms(1,3) unfolding GetWeather_miss [OF assms(2)]
  by (auto simp: saveToCache_def split: if_splits)

lemma GetWeather_same_entry:
  assumes "providers a1 = providers a" and "cacheTTL a1 = cacheTTL a"
      and "cache a1 (cacheKey city country) = cache a (cacheKey city country)"
  shows "fst (GetWeather r a1 city country) = fst (GetWeather r a city country)"
    and "snd (snd (GetWeather r a1 city country)) = snd (snd (GetWeather r a city country))"
  using assms
  by (simp_all add: GetWeather_def getFromCache_def sent_def invoked_def Let_def
      split: option.split)

lemma three_providers_call_later:
  "GetWeather run_later three_providers city country =
     (Inr (aggregateWeather run_later [reading_A] city country),
      saveToCache 60000000004 three_providers (cacheKey city country)
        (aggregateWeather run_later [reading_A] city country),
      [''A'', ''B'', ''C''])"
  by (simp add: GetWeather_miss [OF three_miss])
    (simp add: three_providers_eq run_later_def sent_def goroutine_def invoked_def
      provider_A_def provider_B_def provider_C_def)

section \<open>The claims\<close>

subsection \<open>Partial success\<close>

text \<open>
  Claim C1, as amended. The providers registered are adapters. On a cache miss, with every goroutine
  joined, if the provider at some index was called and returned a reading, then
  \<^verbatim>\<open>GetWeather\<close> returns success, and the aggregate is \<^verbatim>\<open>aggregateWeather\<close> of exactly the
  readings of the providers that did not fail, in the order of completion: its list of
  providers names exactly these providers, and the values of every numeric field are taken
  from these readings alone. When every other provider fails, the reading is the only one:
  the list of providers holds exactly the name of its provider, and the average, the
  minimum and the maximum of every numeric field equal the reading's value as a
  \<^verbatim>\<open>float64\<close>: the value itself for the three fields that are \<^verbatim>\<open>float64\<close>, and
  \<^verbatim>\<open>float64(value)\<close> for humidity and pressure, which is the value itself when its
  magnitude is below \<open>2^53\<close>.
\<close>

theorem GetWeather_partial_success:
  assumes "cache_miss r a city country" and "all_joined r a"
      and "\<forall>p\<in>set (providers a). adapter p"
      and "succeeds r a city country i w"
      and "ok = filter (\<lambda>j. \<not> fails r a city country j) (completion r)"
      and "ws = map (\<lambda>j. projr (p_GetWeather (providers a ! j) city country)) ok"
      and "agg = aggregateWeather r ws city country"
  shows "fst (GetWeather r a city country) = Inr agg
       \<and> i \<in> set ok \<and> w \<in> set ws
       \<and> aw_Providers agg = map (\<lambda>j. Name (providers a ! j)) ok
       \<and> av_Values (aw_Temperature agg) = map Temperature ws
       \<and> av_Values (aw_FeelsLike agg) = map FeelsLike ws
       \<and> av_Values (aw_Humidity agg) = map (\<lambda>d. float64_of_int (Humidity d)) ws
       \<and> av_Values (aw_Pressure agg) = map (\<lambda>d. float64_of_int (Pressure d)) ws
       \<and> av_Values (aw_WindSpeed agg) = map WindSpeed ws
       \<and> ((\<forall>j < length (providers a). j \<noteq> i \<longrightarrow> fails r a city country j) \<longrightarrow>
            ok = [i] \<and> ws = [w] \<and> aw_Providers agg = [Name (providers a ! i)]
            \<and> aw_Temperature agg = single_value (Temperature w)
            \<and> aw_FeelsLike agg = single_value (FeelsLike w)
            \<and> aw_Humidity agg = single_value (float64_of_int (Humidity w))
            \<and> aw_Pressure agg = single_value (float64_of_int (Pressure w))
            \<and> aw_WindSpeed agg = single_value (WindSpeed w)
            \<and> (\<bar>sint (Humidity w)\<bar> < 2 ^ 53 \<longrightarrow>
                 aw_Humidity agg = single_value (Fin (real_of_int (sint (Humidity w)))))
            \<and> (\<bar>sint (Pressure w)\<bar> < 2 ^ 53 \<longrightarrow>
                 aw_Pressure agg = single_value (Fin (real_of_int (sint (Pressure w))))))"
proof -
  have ws: "ws = drain_results (sent r a city country)"
    by (simp add: assms(5,6) drain_results_sent)
  have i: "i \<in> set ok"
    using assms(4) all_joined_set [OF assms(2)] succeeds_not_fails [OF assms(4)]
    by (simp add: assms(5) succeeds_def)
  have mem: "w \<in> set ws"
    using success_drained [OF assms(2,4)] ws by simp
  then have ne: "drain_results (sent r a city country) \<noteq> []"
    using ws by auto
  have prov: "providers a \<noteq> []"
    using assms(4) by (auto simp: succeeds_def)
  have res: "fst (GetWeather r a city country) = Inr agg"
    using ne prov by (simp add: GetWeather_miss [OF assms(1)] ws assms(7))
  have name: "Provider (projr (p_GetWeather (providers a ! j) city country)) = Name (providers a ! j)"
    if "j \<in> set ok" for j
  proof -
    have j: "j < length (providers a)" and nf: "\<not> fails r a city country j"
      using that all_joined_set [OF assms(2)] by (auto simp: assms(5))
    have ad: "adapter (providers a ! j)" using assms(3) j by simp
    obtain w' where "p_GetWeather (providers a ! j) city country = Inr w'"
      using nf by (cases "p_GetWeather (providers a ! j) city country") (auto simp: fails_def)
    then show ?thesis using adapter_reading [OF ad] by simp
  qed
  have names: "aw_Providers agg = map (\<lambda>j. Name (providers a ! j)) ok"
    using name by (simp add: assms(6,7) aggregateWeather_def)
  have vals: "av_Values (aw_Temperature agg) = map Temperature ws"
    "av_Values (aw_FeelsLike agg) = map FeelsLike ws"
    "av_Values (aw_Humidity agg) = map (\<lambda>d. float64_of_int (Humidity d)) ws"
    "av_Values (aw_Pressure agg) = map (\<lambda>d. float64_of_int (Pressure d)) ws"
    "av_Values (aw_WindSpeed agg) = map WindSpeed ws"
    by (simp_all add: assms(7) aggregateWeather_def av_Values_aggregateValues)
  have single: "ok = [i] \<and> ws = [w] \<and> aw_Providers agg = [Name (providers a ! i)]
            \<and> aw_Temperature agg = single_value (Temperature w)
            \<and> aw_FeelsLike agg = single_value (FeelsLike w)
            \<and> aw_Humidity agg = single_value (float64_of_int (Humidity w))
            \<and> aw_Pressure agg = single_value (float64_of_int (Pressure w))
            \<and> aw_WindSpeed agg = single_value (WindSpeed w)
            \<and> (\<bar>sint (Humidity w)\<bar> < 2 ^ 53 \<longrightarrow>
                 aw_Humidity agg = single_value (Fin (real_of_int (sint (Humidity w)))))
            \<and> (\<bar>sint (Pressure w)\<bar> < 2 ^ 53 \<longrightarrow>
                 aw_Pressure agg = single_value (Fin (real_of_int (sint (Pressure w)))))"
    if others: "\<forall>j < length (providers a). j \<noteq> i \<longrightarrow> fails r a city country j"
  proof -
    have w1: "ws = [w]"
      using only_success [OF assms(2,4) others] ws by simp
    have "i \<in> set (completion r)"
      using assms(4) all_joined_set [OF assms(2)] by (simp add: succeeds_def)
    moreover have "filter (\<lambda>j. \<not> fails r a city country j) (completion r) =
        filter (\<lambda>j. j = i) (completion r)"
    proof (rule filter_cong [OF refl])
      fix j assume "j \<in> set (completion r)"
      then have "j < length (providers a)" using all_joined_set [OF assms(2)] by simp
      then show "(\<not> fails r a city country j) = (j = i)"
        using others succeeds_not_fails [OF assms(4)] by blast
    qed
    ultimately have o1: "ok = [i]"
      using filter_eq_single [OF all_joined_distinct [OF assms(2)]] by (simp add: assms(5))
    have ad: "adapter (providers a ! i)"
      using assms(3,4) by (simp add: succeeds_def)
    have "p_GetWeather (providers a ! i) city country = Inr w"
      using assms(4) by (simp add: succeeds_def)
    from adapter_reading [OF ad this]
    have fin: "finite64 (Temperature w)" "finite64 (FeelsLike w)" "finite64 (WindSpeed w)"
      by simp_all
    show ?thesis
      using names
      by (simp add: o1 w1 assms(7) aggregateWeather_single fin float64_of_int_exact)
  qed
  show ?thesis
    using res i mem names vals single by blast
qed

theorem GetWeather_partial_success_witness:
  "cache_miss run_0 three_adapters ''Paris'' ''FR''
   \<and> all_joined run_0 three_adapters
   \<and> adapter adapter_0 \<and> adapter adapter_1 \<and> adapter adapter_2
   \<and> succeeds run_0 three_adapters ''Paris'' ''FR'' 1 reading_paris
   \<and> fails run_0 three_adapters ''Paris'' ''FR'' 0
   \<and> fails run_0 three_adapters ''Paris'' ''FR'' 2
   \<and> fst (GetWeather run_0 three_adapters ''Paris'' ''FR'')
       = Inr (aggregateWeather run_0 [reading_paris] ''Paris'' ''FR'')
   \<and> aw_Providers (aggregateWeather run_0 [reading_paris] ''Paris'' ''FR'') = [''OpenWeatherMap'']
   \<and> aw_Temperature (aggregateWeather run_0 [reading_paris] ''Paris'' ''FR'')
       = single_value (Fin 10)
   \<and> aw_FeelsLike (aggregateWeather run_0 [reading_paris] ''Paris'' ''FR'')
       = single_value (Fin 8)
   \<and> aw_Humidity (aggregateWeather run_0 [reading_paris] ''Paris'' ''FR'')
       = single_value (Fin 50)
   \<and> aw_Pressure (aggregateWeather run_0 [reading_paris] ''Paris'' ''FR'')
       = single_value (Fin 1013)
   \<and> aw_WindSpeed (aggregateWeather run_0 [reading_paris] ''Paris'' ''FR'')
       = single_value (Fin 3)"
proof -
  let ?agg = "aggregateWeather run_0 [reading_paris] ''Paris'' ''FR''"
  have ads: "\<forall>p\<in>set (providers three_adapters). adapter p"
    using adapter_0_ok adapter_1_ok adapter_2_ok by (simp add: three_adapters_eq)
  have others: "\<forall>j < length (providers three_adapters). j \<noteq> 1 \<longrightarrow>
                  fails run_0 three_adapters ''Paris'' ''FR'' j"
  proof (intro allI impI)
    fix j assume "j < length (providers three_adapters)" and "j \<noteq> 1"
    then have "j = 0 \<or> j = 2" by (auto simp: three_adapters_eq)
    then show "fails run_0 three_adapters ''Paris'' ''FR'' j"
      using three_adapters_fail by blast
  qed
  have ok: "[1] = filter (\<lambda>j. \<not> fails run_0 three_adapters ''Paris'' ''FR'' j) (completion run_0)"
    using three_adapters_fail succeeds_not_fails [OF three_adapters_succeed]
    by (simp add: run_0_def)
  have ws: "[reading_paris] =
      map (\<lambda>j. projr (p_GetWeather (providers three_adapters ! j) ''Paris'' ''FR'')) [1]"
    using three_adapters_succeed by (simp add: succeeds_def)
  have conv: "Humidity reading_paris = 50" "Pressure reading_paris = 1013"
    by (simp_all add: reading_paris_def)
  have exact: "float64_of_int 50 = Fin 50" "float64_of_int 1013 = Fin 1013"
    by (simp_all add: float64_of_int_exact)
  have rd: "Temperature reading_paris = Fin 10" "FeelsLike reading_paris = Fin 8"
    "WindSpeed reading_paris = Fin 3"
    by (simp_all add: reading_paris_def)
  have nm: "Name (providers three_adapters ! Suc 0) = ''OpenWeatherMap''"
    by (simp add: three_adapters_eq adapter_1_def OpenWeatherProvider_def OpenWeather_Name_def)
  show ?thesis
    using three_adapters_miss [of run_0 "''Paris''" "''FR''"] three_adapters_joined
      adapter_0_ok adapter_1_ok adapter_2_ok three_adapters_succeed three_adapters_fail others
      GetWeather_partial_success [OF three_adapters_miss three_adapters_joined ads
        three_adapters_succeed ok ws refl]
    by (simp add: conv exact rd nm)
qed

text \<open>
  Claim C1 as stated fails where the conversion to \<^verbatim>\<open>float64\<close> rounds: the only adapter
  succeeds with a reading whose humidity is \<open>2^53 + 1\<close>, and the average of the
  humidity of the aggregate is not that number, which no \<^verbatim>\<open>float64\<close> is.
\<close>

theorem GetWeather_humidity_counterexample:
  "adapter adapter_big
   \<and> fst (GetWeather run_single one_adapter ''Paris'' ''FR'')
       = Inr (aggregateWeather run_single [reading_big] ''Paris'' ''FR'')
   \<and> Humidity reading_big = 9007199254740993
   \<and> av_Average (aw_Humidity (aggregateWeather run_single [reading_big] ''Paris'' ''FR''))
       \<noteq> Fin 9007199254740993"
proof -
  have ad: "adapter adapter_big"
    unfolding adapter_def adapter_big_def
    by (rule disjI1,
        intro exI [of _ "''key1''"] exI [of _ 1]
          exI [of _ "Response 200 (Inr (ow_paris\<lparr>ow_humidity := 9007199254740993\<rparr>))"])
      (simp add: ow_paris_def representable_numeral)
  have miss: "cache_miss run_single one_adapter ''Paris'' ''FR''"
    by (simp add: cache_miss_def getFromCache_fst one_adapter_eq)
  have call: "fst (GetWeather run_single one_adapter ''Paris'' ''FR'')
       = Inr (aggregateWeather run_single [reading_big] ''Paris'' ''FR'')"
    by (simp add: GetWeather_miss [OF miss])
      (simp add: one_adapter_eq run_single_def run_0_def sent_def goroutine_def
        adapter_big_reading)
  have h: "Humidity reading_big = 9007199254740993"
    by (simp add: reading_big_def)
  have "aw_Humidity (aggregateWeather run_single [reading_big] ''Paris'' ''FR'')
          = single_value (float64_of_int (Humidity reading_big))"
    by (rule aggregateWeather_single)
  then have "av_Average (aw_Humidity (aggregateWeather run_single [reading_big] ''Paris'' ''FR''))
          = float64_of_int 9007199254740993"
    by (simp add: single_value_def h)
  then show ?thesis
    using ad call h float64_of_int_rounds by simp
qed

subsection \<open>Total failure\<close>

text \<open>
  When every goroutine fails, \<^verbatim>\<open>GetWeather\<close> fails with the second error, which carries
  one message for each provider (\<open>all_failed\<close>). The message of a goroutine that
  called its provider starts with the provider's name (\<open>failure_message_tagged\<close>); the
  message of a goroutine that found the context done is the message of the context's
  error (\<open>failure_message_cancelled\<close>).

  Claim C2: each captured failure, a cancellation included, is tagged with the name of
  the failing provider. The code does not tag the cancellation it finds at the
  \<^verbatim>\<open>select\<close>: with three providers registered and the context cancelled before the
  goroutines run, the three messages are the bare \<^verbatim>\<open>context canceled\<close>, and none of
  them starts with the name of a provider.
\<close>

theorem GetWeather_cancelled_untagged:
  "GetWeather run_cancelled three_providers ''Paris'' ''FR'' =
     (Inl (AllProvidersFailed [''context canceled'', ''context canceled'', ''context canceled'']),
      three_providers, [])
   \<and> \<not> tagged ''A'' ''context canceled'' \<and> \<not> tagged ''B'' ''context canceled''
   \<and> \<not> tagged ''C'' ''context canceled''"
proof -
  have f: "\<forall>i < length (providers three_providers).
             fails run_cancelled three_providers ''Paris'' ''FR'' i"
    by (simp add: fails_def run_cancelled_def)
  have ne: "providers three_providers \<noteq> []" by (simp add: three_providers_eq)
  have "GetWeather run_cancelled three_providers ''Paris'' ''FR'' =
     (Inl (AllProvidersFailed (map (failure_message run_cancelled three_providers ''Paris'' ''FR'')
        (completion run_cancelled))), three_providers, invoked run_cancelled three_providers)"
    using all_failed(1) [OF three_miss ne three_joined_cancelled f] .
  then show ?thesis
    by (simp add: failure_message_def invoked_def run_cancelled_def run_0_def tagged_def)
qed

subsection \<open>The cache\<close>

text \<open>
  Claim C3. After \<^verbatim>\<open>saveToCache\<close> stored \<open>v\<close> under \<open>k\<close> at time \<open>t0\<close>,
  \<^verbatim>\<open>getFromCache\<close> at time \<open>now\<close> returns \<open>v\<close> itself as long as the age
  \<open>now - t0\<close> does not exceed the TTL, and reports not-found as soon as the age exceeds
  it; a key that was never stored is not found; and \<^verbatim>\<open>getFromCache\<close> leaves the
  aggregator, stale entries included, as it was.
\<close>

theorem cache_round_trip:
  "(now - t0 \<le> cacheTTL a \<longrightarrow> fst (getFromCache now (saveToCache t0 a k v) k) = Some v)
   \<and> (now - t0 > cacheTTL a \<longrightarrow> fst (getFromCache now (saveToCache t0 a k v) k) = None)
   \<and> (cache a k = None \<longrightarrow> fst (getFromCache now a k) = None)
   \<and> snd (getFromCache now a k) = a"
  by (simp add: getFromCache_fst getFromCache_snd saveToCache_def)

theorem cache_round_trip_witness:
  "fst (getFromCache 600000000002 (saveToCache 2 three_providers ''Paris,FR'' weather_0) ''Paris,FR'')
     = Some weather_0
   \<and> fst (getFromCache 600000000003 (saveToCache 2 three_providers ''Paris,FR'' weather_0) ''Paris,FR'')
     = None
   \<and> fst (getFromCache 5 three_providers ''Paris,FR'') = None
   \<and> snd (getFromCache 600000000003 (saveToCache 2 three_providers ''Paris,FR'' weather_0) ''Paris,FR'')
     = saveToCache 2 three_providers ''Paris,FR'' weather_0"
  using cache_round_trip [of 600000000002 2 three_providers "''Paris,FR''" weather_0]
    cache_round_trip [of 600000000003 2 three_providers "''Paris,FR''" weather_0]
    cache_round_trip [of 5 2 three_providers "''Paris,FR''" weather_0]
    cache_round_trip [of 600000000003 2 "saveToCache 2 three_providers ''Paris,FR'' weather_0"
      "''Paris,FR''" weather_0]
  by (simp add: three_providers_eq)

text \<open>
  Claim C8. After \<^verbatim>\<open>ClearCache\<close>, \<^verbatim>\<open>getFromCache\<close> reports not-found for every key at
  every time; the cache is empty, whatever it held; the providers and the TTL are kept.
\<close>

theorem ClearCache_forgets_all:
  "fst (getFromCache now (ClearCache a) key) = None
   \<and> cache (ClearCache a) = Map.empty
   \<and> providers (ClearCache a) = providers a \<and> cacheTTL (ClearCache a) = cacheTTL a"
  by (simp add: getFromCache_fst ClearCache_def)

text \<open>
  Claim C7. A call of \<^verbatim>\<open>GetWeather\<close> whose key has an entry in the cache that is not
  stale returns the stored aggregate, calls no provider and leaves the aggregator, and
  so the cache, as it was.
\<close>

theorem GetWeather_cache_hit:
  assumes "cache a (cacheKey city country) = Some entry"
      and "now_lookup r - timestamp entry \<le> cacheTTL a"
  shows "GetWeather r a city country = (Inr (data entry), a, [])"
  using assms by (rule GetWeather_hit)

theorem GetWeather_cache_hit_witness:
  "GetWeather run_later (saveToCache 2 three_providers (cacheKey ''Paris'' ''FR'') weather_0)
     ''Paris'' ''FR''
   = (Inr weather_0, saveToCache 2 three_providers (cacheKey ''Paris'' ''FR'') weather_0, [])"
  using GetWeather_cache_hit [of "saveToCache 2 three_providers (cacheKey ''Paris'' ''FR'') weather_0"
      "''Paris''" "''FR''" "\<lparr>data = weather_0, timestamp = 2\<rparr>" run_later]
  by (simp add: saveToCache_def three_providers_eq run_later_def)

subsection \<open>The keys\<close>

text \<open>
  Claim C6, as amended. \<^verbatim>\<open>GetWeather\<close> looks up and stores under the city, a comma and the
  country, concatenated with no normalisation: an entry under that string that is not
  stale is what a call returns, and under that string a call that missed and succeeded
  stores its aggregate. When two calls' pairs of city and country differ, and neither city
  holds a comma, the first call leaves the entry under the key of the second as it was, and
  the second call returns and calls what it would have without the first: where the cache
  held nothing under its key, it misses.
\<close>

theorem GetWeather_keys_differ:
  assumes "CHR '','' \<notin> set city1" and "CHR '','' \<notin> set city2"
      and "(city1, country1) \<noteq> (city2, country2)"
      and "GetWeather r1 a city1 country1 = (res1, a1, calls1)"
  shows "(\<forall>entry. cache a (city1 @ '','' @ country1) = Some entry
            \<and> now_lookup r1 - timestamp entry \<le> cacheTTL a \<longrightarrow> res1 = Inr (data entry))
       \<and> (cache_miss r1 a city1 country1 \<and> \<not> isl res1 \<longrightarrow>
            cache a1 = (cache a)(city1 @ '','' @ country1 \<mapsto>
              \<lparr>data = projr res1, timestamp = now_save r1\<rparr>))
       \<and> cache a1 (city2 @ '','' @ country2) = cache a (city2 @ '','' @ country2)
       \<and> fst (GetWeather r2 a1 city2 country2) = fst (GetWeather r2 a city2 country2)
       \<and> snd (snd (GetWeather r2 a1 city2 country2)) = snd (snd (GetWeather r2 a city2 country2))
       \<and> (cache a (city2 @ '','' @ country2) = None \<longrightarrow> cache_miss r2 a1 city2 country2)"
proof -
  have ne: "cacheKey city2 country2 \<noteq> cacheKey city1 country1"
    using cacheKey_inj [OF assms(2,1), of country2 country1] assms(3) by auto
  note same = GetWeather_aggregator [OF assms(4)]
  have entry: "cache a1 (cacheKey city2 country2) = cache a (cacheKey city2 country2)"
    using same ne by blast
  have hit: "res1 = Inr (data entry)"
    if "cache a (city1 @ '','' @ country1) = Some entry"
      and "now_lookup r1 - timestamp entry \<le> cacheTTL a" for entry
    using GetWeather_hit [of a city1 country1 entry r1] that assms(4)
    by (simp add: cacheKey_def)
  have store: "cache a1 = (cache a)(city1 @ '','' @ country1 \<mapsto>
              \<lparr>data = projr res1, timestamp = now_save r1\<rparr>)"
    if "cache_miss r1 a city1 country1" and "\<not> isl res1"
    using GetWeather_stores [OF assms(4) that] by (simp add: cacheKey_def)
  have res: "fst (GetWeather r2 a1 city2 country2) = fst (GetWeather r2 a city2 country2)"
    and calls: "snd (snd (GetWeather r2 a1 city2 country2)) =
      snd (snd (GetWeather r2 a city2 country2))"
    using GetWeather_same_entry [OF _ _ entry, of r2] same by blast+
  have miss: "cache_miss r2 a1 city2 country2" if "cache a (city2 @ '','' @ country2) = None"
    using that entry by (simp add: cache_miss_def getFromCache_fst cacheKey_def)
  show ?thesis
    using hit store entry res calls miss by (simp add: cacheKey_def)
qed

theorem GetWeather_keys_differ_witness:
  "GetWeather run_0 three_providers ''Paris'' ''FR'' =
     (Inr weather_0, saveToCache 2 three_providers ''Paris,FR'' weather_0, [''C'', ''B'', ''A''])
   \<and> cache (saveToCache 2 three_providers ''Paris,FR'' weather_0) ''paris,FR'' = None
   \<and> cache_miss run_later (saveToCache 2 three_providers ''Paris,FR'' weather_0) ''paris'' ''FR''
   \<and> fst (GetWeather run_later (saveToCache 2 three_providers ''Paris,FR'' weather_0)
        ''paris'' ''FR'')
      = Inr (aggregateWeather run_later [reading_A] ''paris'' ''FR'')
   \<and> snd (snd (GetWeather run_later (saveToCache 2 three_providers ''Paris,FR'' weather_0)
        ''paris'' ''FR''))
      = [''A'', ''B'', ''C'']"
proof -
  let ?a1 = "saveToCache 2 three_providers ''Paris,FR'' weather_0"
  have c1: "GetWeather run_0 three_providers ''Paris'' ''FR'' =
              (Inr weather_0, ?a1, [''C'', ''B'', ''A''])"
    using three_providers_call [of "''Paris''" "''FR''"]
    by (simp add: cacheKey_def weather_0_def)
  have h1: "CHR '','' \<notin> set ''Paris''" and h2: "CHR '','' \<notin> set ''paris''"
    and h3: "(''Paris'', ''FR'') \<noteq> (''paris'', ''FR'')"
    by simp_all
  have empty: "cache three_providers (''paris'' @ '','' @ ''FR'') = None"
    by (simp add: three_providers_eq)
  show ?thesis
    using c1 empty GetWeather_keys_differ [OF h1 h2 h3 c1, of run_later]
      three_providers_call_later [of "''paris''" "''FR''"]
    by simp
qed

text \<open>
  Claim C6 as stated fails when a city holds a comma: the pairs \<open>(Springfield,IL; US)\<close> and
  \<open>(Springfield; IL,US)\<close> differ, and a call with the second, a minute after a call with the
  first, does not miss: it is served the aggregate of the first from the cache and calls
  no provider.
\<close>

theorem GetWeather_comma_counterexample:
  "(''Springfield,IL'', ''US'') \<noteq> (''Springfield'', ''IL,US'')
   \<and> GetWeather run_0 three_providers ''Springfield,IL'' ''US'' =
       (Inr (aggregateWeather run_0 [reading_A] ''Springfield,IL'' ''US''),
        saveToCache 2 three_providers ''Springfield,IL,US''
          (aggregateWeather run_0 [reading_A] ''Springfield,IL'' ''US''),
        [''C'', ''B'', ''A''])
   \<and> GetWeather run_later
        (saveToCache 2 three_providers ''Springfield,IL,US''
          (aggregateWeather run_0 [reading_A] ''Springfield,IL'' ''US''))
        ''Springfield'' ''IL,US''
      = (Inr (aggregateWeather run_0 [reading_A] ''Springfield,IL'' ''US''),
         saveToCache 2 three_providers ''Springfield,IL,US''
           (aggregateWeather run_0 [reading_A] ''Springfield,IL'' ''US''), [])"
proof -
  let ?w = "aggregateWeather run_0 [reading_A] ''Springfield,IL'' ''US''"
  let ?a1 = "saveToCache 2 three_providers ''Springfield,IL,US'' ?w"
  have c1: "GetWeather run_0 three_providers ''Springfield,IL'' ''US'' =
              (Inr ?w, ?a1, [''C'', ''B'', ''A''])"
    using three_providers_call [of "''Springfield,IL''" "''US''"] by (simp add: cacheKey_def)
  have "GetWeather run_later ?a1 ''Springfield'' ''IL,US''
      = (Inr (data \<lparr>data = ?w, timestamp = 2\<rparr>), ?a1, [])"
    by (rule GetWeather_hit)
      (simp_all add: saveToCache_def cacheKey_def three_providers_eq run_later_def)
  then show ?thesis using c1 by simp
qed

text \<open>
  Claim C10. The pairs \<open>(a,b; c)\<close> and \<open>(a; b,c)\<close> differ and both have the key
  \<open>a,b,c\<close>; after a call with the first pair returned an aggregate, a call with the
  second pair within the TTL of the entry under that key returns the same aggregate and
  calls no provider.
\<close>

theorem cacheKey_collision:
  assumes "GetWeather r1 a ''a,b'' ''c'' = (Inr w, a1, calls)"
      and "cache a1 ''a,b,c'' = Some entry"
      and "now_lookup r2 - timestamp entry \<le> cacheTTL a1"
  shows "(''a,b'', ''c'') \<noteq> (''a'', ''b,c'')
       \<and> cacheKey ''a,b'' ''c'' = ''a,b,c'' \<and> cacheKey ''a'' ''b,c'' = ''a,b,c''
       \<and> GetWeather r2 a1 ''a'' ''b,c'' = (Inr w, a1, [])"
proof -
  have k1: "cacheKey ''a,b'' ''c'' = ''a,b,c''" and k2: "cacheKey ''a'' ''b,c'' = ''a,b,c''"
    by (simp_all add: cacheKey_def)
  from GetWeather_success_cached [OF assms(1)] assms(2) have "data entry = w"
    by (simp add: k1)
  moreover have "GetWeather r2 a1 ''a'' ''b,c'' = (Inr (data entry), a1, [])"
    using assms(2,3) by (intro GetWeather_hit) (simp_all add: k2)
  ultimately show ?thesis using k1 k2 by simp
qed

theorem cacheKey_collision_witness:
  "GetWeather run_0 three_providers ''a,b'' ''c'' =
     (Inr (aggregateWeather run_0 [reading_A] ''a,b'' ''c''),
      saveToCache 2 three_providers ''a,b,c'' (aggregateWeather run_0 [reading_A] ''a,b'' ''c''),
      [''C'', ''B'', ''A''])
   \<and> GetWeather run_later
       (saveToCache 2 three_providers ''a,b,c'' (aggregateWeather run_0 [reading_A] ''a,b'' ''c''))
       ''a'' ''b,c''
     = (Inr (aggregateWeather run_0 [reading_A] ''a,b'' ''c''),
        saveToCache 2 three_providers ''a,b,c'' (aggregateWeather run_0 [reading_A] ''a,b'' ''c''),
        [])"
proof -
  let ?w = "aggregateWeather run_0 [reading_A] ''a,b'' ''c''"
  let ?a1 = "saveToCache 2 three_providers ''a,b,c'' ?w"
  have c1: "GetWeather run_0 three_providers ''a,b'' ''c'' = (Inr ?w, ?a1, [''C'', ''B'', ''A''])"
    using three_providers_call [of "''a,b''" "''c''"] by (simp add: cacheKey_def)
  have c2: "cache ?a1 ''a,b,c'' = Some \<lparr>data = ?w, timestamp = 2\<rparr>"
    by (simp add: saveToCache_def)
  have c3: "now_lookup run_later - timestamp \<lparr>data = ?w, timestamp = 2\<rparr> \<le> cacheTTL ?a1"
    by (simp add: run_later_def saveToCache_def three_providers_eq)
  show ?thesis
    using c1 cacheKey_collision [OF c1 c2 c3] by simp
qed

subsection \<open>The third error\<close>

text \<open>
  Claim C9. With at least one provider registered and every goroutine joined,
  \<^verbatim>\<open>GetWeather\<close> never returns the third error: every goroutine sent exactly one
  reading or one error, so the readings and the errors drained are as many as the
  providers, and no reading means at least one error.
\<close>

theorem EmptyResultSet_unreachable:
  assumes "providers a \<noteq> []" and "all_joined r a"
  shows "fst (GetWeather r a city country) \<noteq> Inl EmptyResultSet
       \<and> length (drain_results (sent r a city country))
           + length (drain_errors (sent r a city country)) = length (providers a)
       \<and> (drain_results (sent r a city country) = [] \<longrightarrow>
            drain_errors (sent r a city country) \<noteq> [])"
  using EmptyResultSet_never [OF assms] one_outcome_each [OF assms(2)]
    no_success_some_error [OF assms(2,1)]
  by blast

theorem EmptyResultSet_unreachable_witness:
  "providers three_providers \<noteq> [] \<and> all_joined run_cancelled three_providers
   \<and> cache_miss run_cancelled three_providers ''Paris'' ''FR''
   \<and> fst (GetWeather run_cancelled three_providers ''Paris'' ''FR'') \<noteq> Inl EmptyResultSet
   \<and> length (drain_results (sent run_cancelled three_providers ''Paris'' ''FR''))
       + length (drain_errors (sent run_cancelled three_providers ''Paris'' ''FR'')) = 3"
proof -
  have h1: "providers three_providers \<noteq> []" by (simp add: three_providers_eq)
  have n: "length (providers three_providers) = 3" by (simp add: three_providers_eq)
  show ?thesis
    using h1 three_joined_cancelled three_miss [of run_cancelled]
      EmptyResultSet_unreachable [OF h1 three_joined_cancelled, of "''Paris''" "''FR''"]
    by (simp add: n)
qed

end
